theory Spec2Isabelle
  imports Complex_Main "HOL-Library.Word" "HOL-Library.Signed_Division" "HOL-Library.Sublist"
begin

section \<open>Machine integers of the firmware\<close>

text \<open>
  On both targets (AVR and ESP32) \<open>long\<close> and \<open>unsigned long\<close> are 32 bits wide, and
  \<open>byte\<close> is 8 bits. A value of either 32-bit type is kept as its bit pattern, a
  \<open>32 word\<close>: \<open>+\<close>, \<open>-\<close> and \<open>*\<close> wrap around, an unsigned comparison is the order of
  the words, a signed comparison is the order of their \<open>sint\<close> readings. Converting
  between \<open>long\<close> and \<open>unsigned long\<close> keeps the bit pattern. \<open>millis()\<close> is the
  \<open>unsigned long\<close> millisecond clock; every operation below receives the clock reading
  of its invocation as the argument \<open>now\<close>.
\<close>

type_synonym ulong = "32 word"
type_synonym long = "32 word"
type_synonym byte = "8 word"

text \<open>Division of two \<open>long\<close> values: C++ truncates the quotient towards zero.\<close>

definition long_div :: "long \<Rightarrow> long \<Rightarrow> long" where
  "long_div a b = word_of_int (sint a sdiv sint b)"

section \<open>HeartRateCalculator (heartrate.h and its implementation file)\<close>

definition RATE_ARRAY_SIZE :: nat where
  "RATE_ARRAY_SIZE = 4"

record HeartRateCalculator =
  rateArray :: "byte list"
  rateSpot :: nat
  lastBeat :: long
  threshold :: long
  beatDetected :: bool
  lastBeatTime :: ulong

text \<open>The constructor.\<close>

definition HeartRateCalculator_new :: HeartRateCalculator where
  "HeartRateCalculator_new =
     \<lparr>rateArray = replicate RATE_ARRAY_SIZE 0, rateSpot = 0, lastBeat = 0,
      threshold = 512, beatDetected = False, lastBeatTime = 0\<rparr>"

text \<open>
  \<open>checkForBeat(sample)\<close>, called when the clock reads \<open>now\<close>. The first branch is the
  registered beat: it returns \<open>true\<close> before the line that smooths the threshold.
\<close>

definition checkForBeat :: "long \<Rightarrow> ulong \<Rightarrow> HeartRateCalculator \<Rightarrow> bool \<times> HeartRateCalculator" where
  "checkForBeat sample now c =
     (if sint (threshold c) < sint sample \<and> \<not> beatDetected c \<and> 300 < now - lastBeatTime c then
        let delta = now - lastBeat c;
            c1 = c\<lparr>beatDetected := True, lastBeatTime := now, lastBeat := now\<rparr>;
            c2 = (if 300 < sint delta \<and> sint delta < 3000
                  then c1\<lparr>rateArray := (rateArray c1)[rateSpot c1 := ucast (long_div 60000 delta)],
                          rateSpot := (rateSpot c1 + 1) mod RATE_ARRAY_SIZE\<rparr>
                  else c1)
        in (True, c2)
      else
        let c1 = (if sint sample < sint (threshold c - 100) then c\<lparr>beatDetected := False\<rparr> else c)
        in (False, c1\<lparr>threshold := long_div (threshold c1 * 31 + sample) 32\<rparr>))"

text \<open>
  \<open>getBeatsPerMinute()\<close>: the loop adds up the non-zero entries and counts them. The sum
  of four bytes is at most 1020, so \<open>total\<close> and \<open>validReadings\<close> never overflow and are
  kept as integers.
\<close>

definition getBeatsPerMinute :: "HeartRateCalculator \<Rightarrow> int" where
  "getBeatsPerMinute c =
     (let (total, validReadings) =
            fold (\<lambda>i (total, validReadings).
                    if rateArray c ! i \<noteq> 0
                    then (total + uint (rateArray c ! i), validReadings + 1)
                    else (total, validReadings))
                 [0..<RATE_ARRAY_SIZE] (0 :: int, 0 :: int)
      in if validReadings = 0 then 0 else total sdiv validReadings)"

text \<open>
  The mean as the specification words it: the arithmetic mean of the non-zero entries of
  the ring, a real number, and 0 when no entry is non-zero.
\<close>

definition arithmetic_mean_nonzero :: "byte list \<Rightarrow> real" where
  "arithmetic_mean_nonzero xs =
     (let nz = filter (\<lambda>e. e \<noteq> 0) xs
      in if nz = [] then 0 else real_of_int (sum_list (map uint nz)) / real (length nz))"

text \<open>
  What the loop of \<open>getBeatsPerMinute\<close> amounts to on a ring of four entries: the
  integer quotient of the sum of the non-zero entries by their number. It is not the
  mean itself but the mean rounded down.
\<close>

definition quotient_nonzero :: "byte list \<Rightarrow> int" where
  "quotient_nonzero xs =
     (let nz = filter (\<lambda>e. e \<noteq> 0) xs
      in if nz = [] then 0 else sum_list (map uint nz) div int (length nz))"

definition reset :: "HeartRateCalculator \<Rightarrow> HeartRateCalculator" where
  "reset c = c\<lparr>rateArray := fold (\<lambda>i arr. arr[i := 0]) [0..<RATE_ARRAY_SIZE] (rateArray c),
              rateSpot := 0, lastBeat := 0, beatDetected := False\<rparr>"

definition setThreshold :: "long \<Rightarrow> HeartRateCalculator \<Rightarrow> HeartRateCalculator" where
  "setThreshold newThreshold c = c\<lparr>threshold := newThreshold\<rparr>"

text \<open>The calls a client can make on the object, and a run of them from construction.\<close>

datatype hr_call = CheckForBeat long ulong | GetBeatsPerMinute | Reset | SetThreshold long

fun hr_step :: "HeartRateCalculator \<Rightarrow> hr_call \<Rightarrow> HeartRateCalculator" where
  "hr_step c (CheckForBeat sample now) = snd (checkForBeat sample now c)"
| "hr_step c GetBeatsPerMinute = c"
| "hr_step c Reset = reset c"
| "hr_step c (SetThreshold t) = setThreshold t c"

definition hr_run :: "hr_call list \<Rightarrow> HeartRateCalculator" where
  "hr_run calls = foldl hr_step HeartRateCalculator_new calls"

text \<open>What every run keeps true of the ring: four entries, each 0 or a rate in 20..199.\<close>

definition hr_inv :: "HeartRateCalculator \<Rightarrow> bool" where
  "hr_inv c \<longleftrightarrow>
     length (rateArray c) = RATE_ARRAY_SIZE \<and> rateSpot c < RATE_ARRAY_SIZE \<and>
     (\<forall>e \<in> set (rateArray c). e = 0 \<or> (20 \<le> uint e \<and> uint e \<le> 199))"

text \<open>
  Two beats 800 ms apart after a first one at 1 s: the sample of the first call is above
  the threshold, the second is more than 100 below it and clears the latch, the third is
  above it again.
\<close>

definition two_beats :: "hr_call list" where
  "two_beats = [CheckForBeat 1000 1000, CheckForBeat 0 1100, CheckForBeat 1000 1800]"

section \<open>The sketches' own beat detectors\<close>

subsection \<open>The ESP32 sketch with the rate ring\<close>

text \<open>
  The sketch keeps the detector in globals and function-local statics; the record holds
  them. Smoothing weight 15, hysteresis margin 50. As in the class, the registered beat
  returns before the threshold line.
\<close>

record BeatSketch =
  sk_rateArray :: "byte list"
  sk_rateSpot :: nat
  sk_lastBeat :: long
  sk_beatsPerMinute :: int
  sk_lastSample :: long
  sk_threshold :: long
  sk_beatDetected :: bool
  sk_lastBeatTime :: ulong

definition BeatSketch_init :: BeatSketch where
  "BeatSketch_init =
     \<lparr>sk_rateArray = replicate RATE_ARRAY_SIZE 0, sk_rateSpot = 0, sk_lastBeat = 0,
      sk_beatsPerMinute = 0, sk_lastSample = 0, sk_threshold = 512,
      sk_beatDetected = False, sk_lastBeatTime = 0\<rparr>"

definition sketch_checkForBeat :: "long \<Rightarrow> ulong \<Rightarrow> BeatSketch \<Rightarrow> bool \<times> BeatSketch" where
  "sketch_checkForBeat sample now s =
     (if sint (sk_threshold s) < sint sample \<and> \<not> sk_beatDetected s
         \<and> 300 < now - sk_lastBeatTime s then
        let delta = now - sk_lastBeat s;
            s1 = s\<lparr>sk_beatDetected := True, sk_lastBeatTime := now, sk_lastBeat := now\<rparr>;
            s2 = (if 300 < sint delta \<and> sint delta < 3000
                  then let arr = (sk_rateArray s1)[sk_rateSpot s1 := ucast (long_div 60000 delta)];
                           total = fold (\<lambda>i total. total + uint (arr ! i)) [0..<RATE_ARRAY_SIZE] 0
                       in s1\<lparr>sk_rateArray := arr,
                             sk_rateSpot := (sk_rateSpot s1 + 1) mod RATE_ARRAY_SIZE,
                             sk_beatsPerMinute := total sdiv int RATE_ARRAY_SIZE\<rparr>
                  else s1)
        in (True, s2)
      else
        let s1 = (if sint sample < sint (sk_threshold s - 50)
                  then s\<lparr>sk_beatDetected := False\<rparr> else s)
        in (False, s1\<lparr>sk_threshold := long_div (sk_threshold s1 * 15 + sample) 16,
                       sk_lastSample := sample\<rparr>))"

subsection \<open>The cardiac\_impo sketch\<close>

text \<open>
  This sketch has no rate ring. It stores the clock in \<open>lastBeatTime\<close> and only then
  computes \<open>delta = millis() - lastBeatTime\<close>, from the value it has just stored; the
  \<open>return true\<close> sits under the test of that delta. When the test fails control leaves
  the \<open>if\<close>/\<open>else if\<close> chain and reaches the threshold line.
\<close>

record BeatImpo =
  im_lastSample :: long
  im_threshold :: long
  im_beatDetected :: bool
  im_lastBeatTime :: ulong

definition BeatImpo_init :: BeatImpo where
  "BeatImpo_init =
     \<lparr>im_lastSample = 0, im_threshold = 512, im_beatDetected = False, im_lastBeatTime = 0\<rparr>"

definition impo_checkForBeat :: "long \<Rightarrow> ulong \<Rightarrow> BeatImpo \<Rightarrow> bool \<times> BeatImpo" where
  "impo_checkForBeat sample now s =
     (let smooth = (\<lambda>s1. s1\<lparr>im_threshold := long_div (im_threshold s1 * 15 + sample) 16,
                               im_lastSample := sample\<rparr>)
      in if sint (im_threshold s) < sint sample \<and> \<not> im_beatDetected s
            \<and> 300 < now - im_lastBeatTime s then
           let s1 = s\<lparr>im_beatDetected := True, im_lastBeatTime := now\<rparr>;
               delta = now - im_lastBeatTime s1
           in if 300 < sint delta \<and> sint delta < 3000 then (True, s1) else (False, smooth s1)
         else
           let s1 = (if sint sample < sint (im_threshold s - 50)
                     then s\<lparr>im_beatDetected := False\<rparr> else s)
           in (False, smooth s1))"

text \<open>
  What the claim asks of a registered beat, on the cardiac\_impo state: the delta is the
  clock minus the time of the previous beat, and the beat is reported exactly when that
  delta lies strictly between 300 and 3000.
\<close>

definition impo_expected_beat :: "ulong \<Rightarrow> BeatImpo \<Rightarrow> bool" where
  "impo_expected_beat now s \<longleftrightarrow>
     300 < sint (now - im_lastBeatTime s) \<and> sint (now - im_lastBeatTime s) < 3000"

section \<open>SpO2Calculator (spo2\_Algorithm.cpp)\<close>

text \<open>
  The two sample arrays hold \<open>uint32_t\<close> values. The \<open>float\<close> locals of
  \<open>calculateRatio\<close> are kept as real numbers: the function's guards compare them with
  exact zero, and a non-zero 32-bit count stays non-zero when rounded to a float, as does
  a quotient of two such values. A division is a value of a sum type whose left summand is
  the fault of dividing by zero, so that a path reaching a division with a zero divisor
  shows in the result.
\<close>

type_synonym u32 = "32 word"

definition SPO2_CALC_BUFFER_SIZE :: nat where
  "SPO2_CALC_BUFFER_SIZE = 100"

record SpO2Calculator =
  irBuffer :: "u32 list"
  redBuffer :: "u32 list"
  bufferIndex :: nat
  bufferFull :: bool

datatype fault = DivisionByZero

definition fdiv :: "real \<Rightarrow> real \<Rightarrow> fault + real" where
  "fdiv a b = (if b = 0 then Inl DivisionByZero else Inr (a / b))"

definition SpO2Calculator_new :: SpO2Calculator where
  "SpO2Calculator_new =
     \<lparr>irBuffer = replicate SPO2_CALC_BUFFER_SIZE 0, redBuffer = replicate SPO2_CALC_BUFFER_SIZE 0,
      bufferIndex = 0, bufferFull = False\<rparr>"

definition addSample :: "u32 \<Rightarrow> u32 \<Rightarrow> SpO2Calculator \<Rightarrow> SpO2Calculator" where
  "addSample irValue redValue c =
     (let c1 = c\<lparr>irBuffer := (irBuffer c)[bufferIndex c := irValue],
                   redBuffer := (redBuffer c)[bufferIndex c := redValue],
                   bufferIndex := bufferIndex c + 1\<rparr>
      in if bufferIndex c1 \<ge> SPO2_CALC_BUFFER_SIZE
         then c1\<lparr>bufferIndex := 0, bufferFull := True\<rparr> else c1)"

text \<open>The scanning loop of \<open>calculateRatio\<close>: \<open>(irMax, irMin, redMax, redMin)\<close>.\<close>

definition scan_extrema :: "SpO2Calculator \<Rightarrow> u32 \<times> u32 \<times> u32 \<times> u32" where
  "scan_extrema c =
     fold (\<lambda>i (irMax, irMin, redMax, redMin).
             (if irMax < irBuffer c ! i then irBuffer c ! i else irMax,
              if irBuffer c ! i < irMin then irBuffer c ! i else irMin,
              if redMax < redBuffer c ! i then redBuffer c ! i else redMax,
              if redBuffer c ! i < redMin then redBuffer c ! i else redMin))
          [0..<SPO2_CALC_BUFFER_SIZE] (0, 0xFFFFFFFF, 0, 0xFFFFFFFF)"

text \<open>
  The AC and DC components as the function computes them: the difference and the sum are
  taken in \<open>uint32_t\<close> (and wrap) before the conversion to floating point.
\<close>

definition irAC :: "SpO2Calculator \<Rightarrow> real" where
  "irAC c = (case scan_extrema c of (irMax, irMin, redMax, redMin) \<Rightarrow> real (unat (irMax - irMin)))"

definition irDC :: "SpO2Calculator \<Rightarrow> real" where
  "irDC c = (case scan_extrema c of (irMax, irMin, redMax, redMin) \<Rightarrow> real (unat (irMax + irMin)) / 2)"

definition redAC :: "SpO2Calculator \<Rightarrow> real" where
  "redAC c = (case scan_extrema c of (irMax, irMin, redMax, redMin) \<Rightarrow> real (unat (redMax - redMin)))"

definition redDC :: "SpO2Calculator \<Rightarrow> real" where
  "redDC c = (case scan_extrema c of (irMax, irMin, redMax, redMin) \<Rightarrow> real (unat (redMax + redMin)) / 2)"

definition calculateRatio :: "SpO2Calculator \<Rightarrow> fault + real" where
  "calculateRatio c =
     (if \<not> bufferFull c then Inr 0
      else if irDC c = 0 \<or> redDC c = 0 then Inr 0
      else case fdiv (irAC c) (irDC c) of
             Inl e \<Rightarrow> Inl e
           | Inr irRatio \<Rightarrow>
               (case fdiv (redAC c) (redDC c) of
                  Inl e \<Rightarrow> Inl e
                | Inr redRatio \<Rightarrow> if irRatio = 0 then Inr 0 else fdiv redRatio irRatio))"

definition calculateSpO2 :: "SpO2Calculator \<Rightarrow> fault + real" where
  "calculateSpO2 c =
     (if \<not> bufferFull c then Inr 0
      else case calculateRatio c of
             Inl e \<Rightarrow> Inl e
           | Inr ratio \<Rightarrow>
               if ratio = 0 then Inr 0
               else let spO2 = 110 - 25 * ratio;
                        spO2 = (if spO2 > 100 then 100 else spO2);
                        spO2 = (if spO2 < 70 then 70 else spO2)
                    in Inr spO2)"

section \<open>The monitor sketch: sensor tick and alert engine\<close>

text \<open>
  The Uno sketch with the fixed alert arrays. Its globals are the fields of one record.
  The \<open>float\<close> fields of \<open>VitalSigns\<close> and \<open>AlertThresholds\<close> are only assigned and
  compared, never computed with, and are kept as real numbers. An array with its count
  (\<open>activeAlerts\<close> with \<open>activeAlertsCount\<close>, \<open>alertHistory\<close> with
  \<open>alertHistoryCount\<close>) is the list of its first \<open>count\<close> entries, oldest first.
  The display, buzzer and serial output of the alert functions is left out.
\<close>

definition BUFFER_SIZE :: nat where "BUFFER_SIZE = 100"
definition FINGER_THRESHOLD :: u32 where "FINGER_THRESHOLD = 50000"
definition MAX_ALERTS :: nat where "MAX_ALERTS = 5"
definition MAX_HISTORY :: nat where "MAX_HISTORY = 20"
definition MAX_STRING :: nat where "MAX_STRING = 64"
definition ALERT_COOLDOWN :: ulong where "ALERT_COOLDOWN = 5000"
definition ALERT_LEVEL_INFO :: int where "ALERT_LEVEL_INFO = 0"
definition ALERT_LEVEL_WARNING :: int where "ALERT_LEVEL_WARNING = 1"
definition ALERT_LEVEL_CRITICAL :: int where "ALERT_LEVEL_CRITICAL = 2"

record AlertThresholds =
  heartRateMin :: real
  heartRateMax :: real
  spO2Min :: real
  batteryMin :: real
  enabled :: bool

record VitalSigns =
  heartRate :: real
  spO2 :: real
  batteryLevel :: real
  isFingerDetected :: bool
  timestamp :: ulong

record Alert =
  level :: int
  message :: string
  alert_timestamp :: ulong
  acknowledged :: bool

record Monitor =
  currentVitals :: VitalSigns
  alertThresholds :: AlertThresholds
  g_irBuffer :: "u32 list"
  g_redBuffer :: "u32 list"
  g_spo2 :: int
  g_validSPO2 :: int
  g_heartRate :: int
  g_validHeartRate :: int
  g_bufferIndex :: nat
  fingerDetected :: bool
  activeAlerts :: "Alert list"
  alertHistory :: "Alert list"
  lastAlertTime :: ulong

text \<open>The state after \<open>setup()\<close>: zeroed globals and the defaults of \<open>loadSettings\<close>.\<close>

definition Monitor_init :: Monitor where
  "Monitor_init =
     \<lparr>currentVitals = \<lparr>heartRate = 0, spO2 = 0, batteryLevel = 0, isFingerDetected = False,
                        timestamp = 0\<rparr>,
      alertThresholds = \<lparr>heartRateMin = 60, heartRateMax = 100, spO2Min = 95, batteryMin = 20,
                          enabled = True\<rparr>,
      g_irBuffer = replicate BUFFER_SIZE 0, g_redBuffer = replicate BUFFER_SIZE 0,
      g_spo2 = 0, g_validSPO2 = 0, g_heartRate = 0, g_validHeartRate = 0,
      g_bufferIndex = 0, fingerDetected = False,
      activeAlerts = [], alertHistory = [], lastAlertTime = 0\<rparr>"

subsection \<open>updateSensors\<close>

text \<open>
  What one tick reads from outside: whether the sensor has a sample, the sample, and the
  battery level \<open>readBatteryLevel()\<close> returns. The library routine
  \<open>maxim_heart_rate_and_oxygen_saturation\<close> (SparkFun's, not part of the repository) is a
  parameter: a function of the two buffers giving
  \<open>(spo2, validSPO2, heartRate, validHeartRate)\<close>.
\<close>

record SensorInput =
  sensor_available :: bool
  sensor_red :: u32
  sensor_ir :: u32
  battery_reading :: real

type_synonym maxim_fn = "u32 list \<Rightarrow> u32 list \<Rightarrow> int \<times> int \<times> int \<times> int"

definition updateSensors :: "maxim_fn \<Rightarrow> SensorInput \<Rightarrow> ulong \<Rightarrow> Monitor \<Rightarrow> Monitor" where
  "updateSensors maxim inp now m =
     (let m1 = m\<lparr>currentVitals := (currentVitals m)\<lparr>batteryLevel := battery_reading inp,
                                                     timestamp := now\<rparr>\<rparr>
      in if \<not> sensor_available inp then m1
         else
           let m2 = m1\<lparr>g_redBuffer := (g_redBuffer m1)[g_bufferIndex m1 := sensor_red inp],
                         g_irBuffer := (g_irBuffer m1)[g_bufferIndex m1 := sensor_ir inp]\<rparr>;
               fd = (FINGER_THRESHOLD < g_irBuffer m2 ! g_bufferIndex m2);
               m3 = m2\<lparr>fingerDetected := fd,
                         currentVitals := (currentVitals m2)\<lparr>isFingerDetected := fd\<rparr>,
                         g_bufferIndex := g_bufferIndex m2 + 1\<rparr>
           in if g_bufferIndex m3 \<ge> BUFFER_SIZE then
                let m4 = m3\<lparr>g_bufferIndex := 0\<rparr>
                in if fingerDetected m4 then
                     (case maxim (g_irBuffer m4) (g_redBuffer m4) of
                        (spo2', validSPO2', heartRate', validHeartRate') \<Rightarrow>
                          let m5 = m4\<lparr>g_spo2 := spo2', g_validSPO2 := validSPO2',
                                        g_heartRate := heartRate',
                                        g_validHeartRate := validHeartRate'\<rparr>;
                              m6 = (if validHeartRate' \<noteq> 0 \<and> heartRate' > 0 \<and> heartRate' < 200
                                    then m5\<lparr>currentVitals :=
                                              (currentVitals m5)\<lparr>heartRate := of_int heartRate'\<rparr>\<rparr>
                                    else m5)
                          in if validSPO2' \<noteq> 0 \<and> spo2' > 0 \<and> spo2' \<le> 100
                             then m6\<lparr>currentVitals := (currentVitals m6)\<lparr>spO2 := of_int spo2'\<rparr>\<rparr>
                             else m6)
                   else m4\<lparr>currentVitals := (currentVitals m4)\<lparr>heartRate := 0, spO2 := 0\<rparr>\<rparr>
              else m3)"

subsection \<open>The alert engine\<close>

text \<open>\<open>(int)x\<close> on a float truncates towards zero; \<open>%d\<close> prints in decimal.\<close>

definition float_to_int :: "real \<Rightarrow> int" where
  "float_to_int x = (if 0 \<le> x then \<lfloor>x\<rfloor> else \<lceil>x\<rceil>)"

fun show_nat :: "nat \<Rightarrow> string" where
  "show_nat n =
     (if n < 10 then [''0123456789'' ! n]
      else show_nat (n div 10) @ [''0123456789'' ! (n mod 10)])"

declare show_nat.simps [simp del]

definition show_int :: "int \<Rightarrow> string" where
  "show_int i = (if i < 0 then CHR ''-'' # show_nat (nat (- i)) else show_nat (nat i))"

text \<open>\<open>snprintf\<close> into \<open>char message[MAX_STRING]\<close> keeps at most \<open>MAX_STRING - 1\<close> characters.\<close>

definition snprintf_message :: "string \<Rightarrow> real \<Rightarrow> string \<Rightarrow> string" where
  "snprintf_message before x after =
     take (MAX_STRING - 1) (before @ show_int (float_to_int x) @ after)"

definition new_alert :: "int \<Rightarrow> string \<Rightarrow> ulong \<Rightarrow> Alert" where
  "new_alert lvl msg now =
     \<lparr>level = lvl, message = take MAX_STRING msg, alert_timestamp = now, acknowledged = False\<rparr>"

text \<open>
  \<open>triggerAlert\<close>. The active array takes the alert only while it has room. The history
  array, when full, is moved down by one entry (\<open>memmove\<close> of \<open>MAX_HISTORY - 1\<close> entries)
  and the alert is written to its last slot, the count staying as it is.
\<close>

definition triggerAlert :: "int \<Rightarrow> string \<Rightarrow> ulong \<Rightarrow> Monitor \<Rightarrow> Monitor" where
  "triggerAlert lvl msg now m =
     (if now - lastAlertTime m < ALERT_COOLDOWN then m
      else
        let alert = new_alert lvl msg now;
            m1 = (if length (activeAlerts m) < MAX_ALERTS
                  then m\<lparr>activeAlerts := activeAlerts m @ [alert]\<rparr> else m);
            m2 = (if length (alertHistory m1) < MAX_HISTORY
                  then m1\<lparr>alertHistory := alertHistory m1 @ [alert]\<rparr>
                  else m1\<lparr>alertHistory := take (MAX_HISTORY - 1) (drop 1 (alertHistory m1)) @ [alert]
                                              @ drop MAX_HISTORY (alertHistory m1)\<rparr>)
        in m2\<lparr>lastAlertTime := now\<rparr>)"

definition keep_alert :: "ulong \<Rightarrow> Alert \<Rightarrow> bool" where
  "keep_alert currentTime a \<longleftrightarrow> \<not> acknowledged a \<and> currentTime - alert_timestamp a \<le> 30000"

definition removeOldAlerts :: "ulong \<Rightarrow> Monitor \<Rightarrow> Monitor" where
  "removeOldAlerts now m = m\<lparr>activeAlerts := filter (keep_alert now) (activeAlerts m)\<rparr>"

definition checkAlerts :: "ulong \<Rightarrow> Monitor \<Rightarrow> Monitor" where
  "checkAlerts now m =
     (if \<not> enabled (alertThresholds m) then m
      else
        let v = currentVitals m;
            th = alertThresholds m;
            m1 = (if isFingerDetected v \<and> heartRate v > 0
                     \<and> (heartRate v < heartRateMin th \<or> heartRate v > heartRateMax th)
                  then triggerAlert
                         (if heartRate v < 50 \<or> heartRate v > 120
                          then ALERT_LEVEL_CRITICAL else ALERT_LEVEL_WARNING)
                         (snprintf_message ''HR: '' (heartRate v) '' BPM'') now m
                  else m);
            m2 = (if isFingerDetected v \<and> spO2 v > 0 \<and> spO2 v < spO2Min th
                  then triggerAlert
                         (if spO2 v < 90 then ALERT_LEVEL_CRITICAL else ALERT_LEVEL_WARNING)
                         (snprintf_message ''Low SpO2: '' (spO2 v) ''%'') now m1
                  else m1);
            m3 = (if batteryLevel v < batteryMin th
                  then triggerAlert
                         (if batteryLevel v < 10 then ALERT_LEVEL_CRITICAL else ALERT_LEVEL_WARNING)
                         (snprintf_message ''Low battery: '' (batteryLevel v) ''%'') now m2
                  else m2)
        in removeOldAlerts now m3)"

text \<open>The alert-history part of \<open>checkMemoryUsage\<close>, taken when free memory is low.\<close>

definition trimAlertHistory :: "Monitor \<Rightarrow> Monitor" where
  "trimAlertHistory m =
     (if length (alertHistory m) > 10 then m\<lparr>alertHistory := drop 5 (alertHistory m)\<rparr> else m)"

text \<open>
  The steps that touch this state, and a run of them from \<open>Monitor_init\<close>.
  \<open>LoadSettings\<close> is \<open>loadSettings()\<close>, which reads the thresholds from the settings
  store (in one sketch it assigns the defaults of \<open>Monitor_init\<close>); the other three are
  taken by \<open>loop()\<close>. \<open>mon_run\<close> admits the steps in any order. The sketches call
  \<open>loadSettings()\<close> from \<open>setup()\<close> and from nowhere else, and nothing else assigns
  \<open>alertThresholds\<close>: a run of the program satisfies \<open>settings_at_boot\<close>, its steps
  after the first are steps of \<open>loop()\<close>.
\<close>

datatype mon_call =
    UpdateSensors maxim_fn SensorInput ulong
  | CheckAlerts ulong
  | TrimAlertHistory
  | LoadSettings AlertThresholds

fun mon_step :: "Monitor \<Rightarrow> mon_call \<Rightarrow> Monitor" where
  "mon_step m (UpdateSensors maxim inp now) = updateSensors maxim inp now m"
| "mon_step m (CheckAlerts now) = checkAlerts now m"
| "mon_step m TrimAlertHistory = trimAlertHistory m"
| "mon_step m (LoadSettings th) = m\<lparr>alertThresholds := th\<rparr>"

definition mon_run :: "mon_call list \<Rightarrow> Monitor" where
  "mon_run calls = foldl mon_step Monitor_init calls"



section \<open>The ESP32 sketch's alert engine\<close>

text \<open>
  The ESP32 sketch keeps both collections in \<open>std::vector\<close>s. \<open>triggerAlert\<close> pushes the
  alert on both and erases the first history entry once the history holds more than 50;
  the active vector has no size limit of its own.
\<close>

datatype AlertLevel = INFO | WARNING | CRITICAL

record Alert32 =
  e_level :: AlertLevel
  e_message :: string
  e_timestamp :: ulong
  e_acknowledged :: bool

record Engine32 =
  e_currentVitals :: VitalSigns
  e_alertThresholds :: AlertThresholds
  e_activeAlerts :: "Alert32 list"
  e_alertHistory :: "Alert32 list"
  e_lastAlertTime :: ulong

definition Engine32_init :: Engine32 where
  "Engine32_init =
     \<lparr>e_currentVitals = \<lparr>heartRate = 0, spO2 = 0, batteryLevel = 0, isFingerDetected = False,
                          timestamp = 0\<rparr>,
      e_alertThresholds = \<lparr>heartRateMin = 60, heartRateMax = 100, spO2Min = 95, batteryMin = 20,
                            enabled = True\<rparr>,
      e_activeAlerts = [], e_alertHistory = [], e_lastAlertTime = 0\<rparr>"

definition triggerAlert32 :: "AlertLevel \<Rightarrow> string \<Rightarrow> ulong \<Rightarrow> Engine32 \<Rightarrow> Engine32" where
  "triggerAlert32 lvl msg now s =
     (if now - e_lastAlertTime s < 5000 then s
      else
        let alert = \<lparr>e_level = lvl, e_message = msg, e_timestamp = now, e_acknowledged = False\<rparr>;
            s1 = s\<lparr>e_activeAlerts := e_activeAlerts s @ [alert],
                     e_alertHistory := e_alertHistory s @ [alert]\<rparr>;
            s2 = (if length (e_alertHistory s1) > 50
                  then s1\<lparr>e_alertHistory := drop 1 (e_alertHistory s1)\<rparr> else s1)
        in s2\<lparr>e_lastAlertTime := now\<rparr>)"

definition expired32 :: "ulong \<Rightarrow> Alert32 \<Rightarrow> bool" where
  "expired32 currentTime a \<longleftrightarrow> e_acknowledged a \<or> currentTime - e_timestamp a > 30000"

definition removeOldAlerts32 :: "ulong \<Rightarrow> Engine32 \<Rightarrow> Engine32" where
  "removeOldAlerts32 now s =
     s\<lparr>e_activeAlerts := filter (\<lambda>a. \<not> expired32 now a) (e_activeAlerts s)\<rparr>"

definition String_of_float_int :: "real \<Rightarrow> string" where
  "String_of_float_int x = show_int (float_to_int x)"

definition checkAlerts32 :: "ulong \<Rightarrow> Engine32 \<Rightarrow> Engine32" where
  "checkAlerts32 now s =
     (if \<not> enabled (e_alertThresholds s) then s
      else
        let v = e_currentVitals s;
            th = e_alertThresholds s;
            s1 = (if isFingerDetected v \<and> heartRate v > 0
                     \<and> (heartRate v < heartRateMin th \<or> heartRate v > heartRateMax th)
                  then triggerAlert32
                         (if heartRate v < 50 \<or> heartRate v > 120 then CRITICAL else WARNING)
                         (''Heart rate: '' @ String_of_float_int (heartRate v) @ '' BPM'') now s
                  else s);
            s2 = (if isFingerDetected v \<and> spO2 v > 0 \<and> spO2 v < spO2Min th
                  then triggerAlert32
                         (if spO2 v < 90 then CRITICAL else WARNING)
                         (''Low SpO2: '' @ String_of_float_int (spO2 v) @ ''%'') now s1
                  else s1);
            s3 = (if batteryLevel v < batteryMin th
                  then triggerAlert32
                         (if batteryLevel v < 10 then CRITICAL else WARNING)
                         (''Low battery: '' @ String_of_float_int (batteryLevel v) @ ''%'') now s2
                  else s2)
        in removeOldAlerts32 now s3)"

section \<open>AlertManager (alert.h and its implementation)\<close>

text \<open>
  The class keeps an array of \<open>MAX_ALERTS = 10\<close> alerts and the count of the live ones.
  What \<open>addAlert\<close> sends to the buzzer and the serial port is returned beside the new
  state, in the order it is sent.
\<close>

datatype AlertType =
    ALERT_NONE | ALERT_HIGH_HEART_RATE | ALERT_LOW_HEART_RATE | ALERT_LOW_SPO2
  | ALERT_LOW_BATTERY | ALERT_SENSOR_ERROR | ALERT_NO_FINGER

record ManagedAlert =
  am_type :: AlertType
  am_message :: string
  am_timestamp :: ulong
  am_acknowledged :: bool

record AlertManager =
  alerts :: "ManagedAlert list"
  alertCount :: nat
  lastBuzzerTime :: ulong
  buzzerEnabled :: bool

datatype emitted = Tone int int | Delay int | SerialPrint string

definition AM_MAX_ALERTS :: nat where "AM_MAX_ALERTS = 10"

definition AlertManager_new :: AlertManager where
  "AlertManager_new =
     \<lparr>alerts = replicate AM_MAX_ALERTS
                 \<lparr>am_type = ALERT_NONE, am_message = [], am_timestamp = 0, am_acknowledged = False\<rparr>,
      alertCount = 0, lastBuzzerTime = 0, buzzerEnabled = True\<rparr>"

fun tone_pattern :: "AlertType \<Rightarrow> (int \<times> int \<times> nat) option" where
  "tone_pattern ALERT_HIGH_HEART_RATE = Some (1000, 200, 3)"
| "tone_pattern ALERT_LOW_SPO2 = Some (1000, 200, 3)"
| "tone_pattern ALERT_LOW_HEART_RATE = Some (800, 300, 2)"
| "tone_pattern ALERT_LOW_BATTERY = Some (600, 100, 1)"
| "tone_pattern ALERT_SENSOR_ERROR = Some (1200, 150, 4)"
| "tone_pattern _ = None"

definition playAlertTone :: "AlertType \<Rightarrow> emitted list" where
  "playAlertTone t =
     (case tone_pattern t of
        None \<Rightarrow> []
      | Some (frequency, duration, pulses) \<Rightarrow>
          concat (replicate pulses [Tone frequency duration, Delay (duration + 50)]))"

definition shiftAlerts :: "AlertManager \<Rightarrow> AlertManager" where
  "shiftAlerts am =
     (let a1 = fold (\<lambda>i a. a[i := a ! (i + 1)]) [0..<AM_MAX_ALERTS - 1] (alerts am)
      in am\<lparr>alerts := a1[AM_MAX_ALERTS - 1 := (a1 ! (AM_MAX_ALERTS - 1))\<lparr>am_type := ALERT_NONE\<rparr>]\<rparr>)"

text \<open>The test of the loop that opens \<open>addAlert\<close>: a live alert of the type, under 30 s old.\<close>

definition recent_duplicate :: "AlertType \<Rightarrow> ulong \<Rightarrow> AlertManager \<Rightarrow> bool" where
  "recent_duplicate t now am =
     list_ex (\<lambda>i. am_type (alerts am ! i) = t \<and> now - am_timestamp (alerts am ! i) < 30000)
       [0..<alertCount am]"

definition addAlert :: "AlertType \<Rightarrow> string \<Rightarrow> ulong \<Rightarrow> AlertManager \<Rightarrow> AlertManager \<times> emitted list" where
  "addAlert t msg now am =
     (if recent_duplicate t now am then (am, [])
      else
        let am1 = (if alertCount am \<ge> AM_MAX_ALERTS
                   then (shiftAlerts am)\<lparr>alertCount := AM_MAX_ALERTS - 1\<rparr> else am);
            am2 = am1\<lparr>alerts := (alerts am1)[alertCount am1 :=
                                 \<lparr>am_type = t, am_message = msg, am_timestamp = now,
                                  am_acknowledged = False\<rparr>],
                       alertCount := alertCount am1 + 1\<rparr>
        in (am2, (if buzzerEnabled am2 then playAlertTone t else [])
                 @ [SerialPrint (''ALERT: '' @ msg @ [CHR 0x0A])]))"

definition acknowledgeAlert :: "int \<Rightarrow> AlertManager \<Rightarrow> AlertManager" where
  "acknowledgeAlert index am =
     (if index \<ge> 0 \<and> index < int (alertCount am)
      then am\<lparr>alerts := (alerts am)[nat index := (alerts am ! nat index)\<lparr>am_acknowledged := True\<rparr>]\<rparr>
      else am)"

text \<open>
  The calculator after its buffer has wrapped with the same pair in every slot, as
  \<open>BUFFER_SIZE\<close> calls of \<open>addSample(a, b)\<close> on a new calculator leave it.
\<close>

definition flat_buffers :: "u32 \<Rightarrow> u32 \<Rightarrow> SpO2Calculator" where
  "flat_buffers a b =
     \<lparr>irBuffer = replicate SPO2_CALC_BUFFER_SIZE a, redBuffer = replicate SPO2_CALC_BUFFER_SIZE b,
      bufferIndex = 0, bufferFull = True\<rparr>"

text \<open>A manager holding one alert: a new manager after one \<open>addAlert\<close> at 1000 ms.\<close>

definition first_alert :: AlertManager where
  "first_alert = fst (addAlert ALERT_LOW_SPO2 ''Low SpO2'' 1000 AlertManager_new)"

subsection \<open>A measurement and a lost finger\<close>

text \<open>
  Inputs and states for the sensor tick: a library routine that reports a valid heart
  rate of 72 and SpO2 of 98; a sample with the finger on the sensor and one without; the
  states while the first buffer fills with finger-on samples; the state once it is full
  and measured; the ticks that lead there, one every 100 ms.
\<close>

definition maxim_72_98 :: maxim_fn where
  "maxim_72_98 ir red = (98, 1, 72, 1)"

definition finger_on :: SensorInput where
  "finger_on = \<lparr>sensor_available = True, sensor_red = 50000, sensor_ir = 60000, battery_reading = 80\<rparr>"

definition finger_off :: SensorInput where
  "finger_off = \<lparr>sensor_available = True, sensor_red = 900, sensor_ir = 1000, battery_reading = 80\<rparr>"

definition measured :: Monitor where
  "measured =
     Monitor_init
       \<lparr>currentVitals := \<lparr>heartRate = 72, spO2 = 98, batteryLevel = 80, isFingerDetected = True,
                          timestamp = 10000\<rparr>,
        g_irBuffer := replicate BUFFER_SIZE 60000, g_redBuffer := replicate BUFFER_SIZE 50000,
        g_spo2 := 98, g_validSPO2 := 1, g_heartRate := 72, g_validHeartRate := 1,
        g_bufferIndex := 0, fingerDetected := True\<rparr>"

definition filling :: "nat \<Rightarrow> ulong \<Rightarrow> Monitor" where
  "filling k t =
     Monitor_init
       \<lparr>currentVitals := \<lparr>heartRate = 0, spO2 = 0, batteryLevel = 80, isFingerDetected = True,
                          timestamp = t\<rparr>,
        g_irBuffer := replicate k 60000 @ replicate (BUFFER_SIZE - k) 0,
        g_redBuffer := replicate k 50000 @ replicate (BUFFER_SIZE - k) 0,
        g_bufferIndex := k, fingerDetected := True\<rparr>"

definition measured_at :: "ulong \<Rightarrow> Monitor" where
  "measured_at t = measured\<lparr>currentVitals := (currentVitals measured)\<lparr>timestamp := t\<rparr>\<rparr>"

definition ticks :: "ulong list \<Rightarrow> mon_call list" where
  "ticks ts = map (UpdateSensors maxim_72_98 finger_on) ts"

definition tick_times :: "ulong list" where
  "tick_times = map (\<lambda>i. word_of_nat (100 * i)) [1..<BUFFER_SIZE + 1]"

subsection \<open>Capacity, cooldown and example runs of the alert engine\<close>

text \<open>The capacity bounds of the two collections.\<close>

definition alerts_inv :: "Monitor \<Rightarrow> bool" where
  "alerts_inv m \<longleftrightarrow> length (activeAlerts m) \<le> MAX_ALERTS \<and> length (alertHistory m) \<le> MAX_HISTORY"

text \<open>
  A tick without a sensor sample that reads the battery at 8 per cent, the critical
  low-battery alert that \<open>checkAlerts\<close> then raises, and the monitor states in which only
  the battery is out of range.
\<close>

definition battery_low :: SensorInput where
  "battery_low = \<lparr>sensor_available = False, sensor_red = 0, sensor_ir = 0, battery_reading = 8\<rparr>"

definition low_battery_alert :: "ulong \<Rightarrow> Alert" where
  "low_battery_alert t = new_alert ALERT_LEVEL_CRITICAL ''Low battery: 8%'' t"

definition low_battery_state :: "Alert list \<Rightarrow> Alert list \<Rightarrow> ulong \<Rightarrow> Monitor" where
  "low_battery_state active history t =
     Monitor_init\<lparr>currentVitals := (currentVitals Monitor_init)\<lparr>batteryLevel := 8, timestamp := 4900\<rparr>,
                  activeAlerts := active, alertHistory := history, lastAlertTime := t\<rparr>"

text \<open>The battery reading followed by six evaluation cycles, 5 s apart.\<close>

definition low_battery_run :: "mon_call list" where
  "low_battery_run =
     [UpdateSensors maxim_72_98 battery_low 4900, CheckAlerts 5000, CheckAlerts 10000,
      CheckAlerts 15000, CheckAlerts 20000, CheckAlerts 25000, CheckAlerts 30000]"

text \<open>
  A step of the main loop lies within the cooldown that started at \<open>t1\<close> when it is not
  an evaluation cycle, or is one whose clock reading is less than \<open>ALERT_COOLDOWN\<close>
  after \<open>t1\<close>.
\<close>

fun within_cooldown :: "ulong \<Rightarrow> mon_call \<Rightarrow> bool" where
  "within_cooldown t1 (CheckAlerts t) = (t - t1 < ALERT_COOLDOWN)"
| "within_cooldown t1 (UpdateSensors maxim inp t) = True"
| "within_cooldown t1 TrimAlertHistory = True"
| "within_cooldown t1 (LoadSettings th) = True"

text \<open>
  What the three \<open>triggerAlert\<close> calls of one cycle can make of the state \<open>m\<close>: nothing,
  or one passage of the gate, which stamps the clock and appends at most one alert.
\<close>

definition one_trigger :: "ulong \<Rightarrow> Monitor \<Rightarrow> Monitor \<Rightarrow> bool" where
  "one_trigger now m x \<longleftrightarrow>
     x = m \<or> (lastAlertTime x = now \<and>
                (activeAlerts x = activeAlerts m \<or> (\<exists>a. activeAlerts x = activeAlerts m @ [a])))"




text \<open>
  The ESP32 sketch: the alert-history part of \<open>checkMemoryUsage\<close>, the steps that touch
  the engine state, runs from the initial state, and the analogue of \<open>one_trigger\<close>.
  Here too \<open>loadSettings()\<close> is called from \<open>setup()\<close> only, so that a run of the
  program satisfies \<open>settings_at_boot32\<close>.
\<close>

definition trimHistory32 :: "Engine32 \<Rightarrow> Engine32" where
  "trimHistory32 s =
     (if length (e_alertHistory s) > 25 then s\<lparr>e_alertHistory := drop 10 (e_alertHistory s)\<rparr> else s)"

datatype eng_call =
    CheckAlerts32 ulong
  | SetVitals32 VitalSigns
  | LoadSettings32 AlertThresholds
  | TrimHistory32

fun eng_step :: "Engine32 \<Rightarrow> eng_call \<Rightarrow> Engine32" where
  "eng_step s (CheckAlerts32 now) = checkAlerts32 now s"
| "eng_step s (SetVitals32 v) = s\<lparr>e_currentVitals := v\<rparr>"
| "eng_step s (LoadSettings32 th) = s\<lparr>e_alertThresholds := th\<rparr>"
| "eng_step s TrimHistory32 = trimHistory32 s"

definition eng_run :: "eng_call list \<Rightarrow> Engine32" where
  "eng_run calls = foldl eng_step Engine32_init calls"




definition one_trigger32 :: "ulong \<Rightarrow> Engine32 \<Rightarrow> Engine32 \<Rightarrow> bool" where
  "one_trigger32 now s x \<longleftrightarrow>
     x = s \<or> (e_lastAlertTime x = now \<and> (\<exists>a. e_activeAlerts x = e_activeAlerts s @ [a]))"

definition history32_inv :: "Engine32 \<Rightarrow> bool" where
  "history32_inv s \<longleftrightarrow> length (e_alertHistory s) \<le> 50"

definition alert32 :: "AlertLevel \<Rightarrow> string \<Rightarrow> ulong \<Rightarrow> Alert32" where
  "alert32 lvl msg now = \<lparr>e_level = lvl, e_message = msg, e_timestamp = now, e_acknowledged = False\<rparr>"

text \<open>
  The low-battery alert of the ESP32 sketch, an engine state with two of them, the
  vitals with the battery at 8 per cent and the engine states in which only the battery is
  out of range.
\<close>

definition low_battery_alert32 :: "ulong \<Rightarrow> Alert32" where
  "low_battery_alert32 t = alert32 CRITICAL ''Low battery: 8%'' t"

definition on_state32 :: Engine32 where
  "on_state32 =
     Engine32_init\<lparr>e_activeAlerts := [low_battery_alert32 5000, low_battery_alert32 25000],
                    e_lastAlertTime := 25000\<rparr>"





text \<open>The state after the first low-battery alert and two cycles inside its cooldown.\<close>

definition after_first :: Monitor where
  "after_first = low_battery_state [low_battery_alert 5000] [low_battery_alert 5000] 5000"

definition busy_window :: "mon_call list" where
  "busy_window = [UpdateSensors maxim_72_98 finger_on 5500, CheckAlerts 6000, CheckAlerts 7000]"

section \<open>Arithmetic of the rate ring\<close>

lemma sdiv_pos: "0 < (d::int) \<Longrightarrow> 0 \<le> a \<Longrightarrow> a sdiv d = a div d"
  by (simp add: signed_divide_int_def sgn_if)

lemma upt4: "[0..<4] = [0, 1, 2, 3]"
  by (simp add: upt_rec numeral_eq_Suc)

lemma rep4: "replicate 4 x = [x, x, x, x]"
  by (simp add: numeral_eq_Suc)

lemma list4:
  assumes "length xs = 4"
  obtains a b c d where "xs = [a, b, c, d]"
proof -
  have "\<exists>a b c d. xs = [a, b, c, d]"
    using assms by (auto simp: numeral_eq_Suc length_Suc_conv)
  then show ?thesis using that by blast
qed

lemma bpm_range:
  fixes d :: long
  assumes "300 < sint d" "sint d < 3000"
  shows "20 \<le> (60000::int) div sint d \<and> (60000::int) div sint d \<le> 199"
proof -
  have "(60000::int) div 2999 \<le> 60000 div sint d"
    using assms by (intro zdiv_mono2) auto
  moreover have "(60000::int) div sint d \<le> 60000 div 301"
    using assms by (intro zdiv_mono2) auto
  ultimately show ?thesis by simp
qed

lemma bpm_byte:
  fixes d :: long
  assumes "300 < sint d" "sint d < 3000"
  shows "uint (ucast (long_div 60000 d) :: byte) = 60000 div sint d"
proof -
  note r = bpm_range [OF assms]
  have e: "(60000::int) sdiv sint d = 60000 div sint d"
    using assms by (simp add: sdiv_pos)
  have "uint (ucast (word_of_int (60000 div sint d) :: long) :: byte) = 60000 div sint d"
    using r by (simp add: unsigned_ucast_eq uint_word_of_int_eq take_bit_int_eq_self)
  then show ?thesis by (simp add: long_div_def e)
qed

lemma rate_loop:
  assumes "length xs = 4"
  shows "fold (\<lambda>i (total, validReadings).
                  if (xs :: byte list) ! i \<noteq> 0
                  then (total + uint (xs ! i), validReadings + 1)
                  else (total, validReadings))
              [0..<4] (0 :: int, 0 :: int)
         = (sum_list (map uint (filter (\<lambda>e. e \<noteq> 0) xs)),
            int (length (filter (\<lambda>e. e \<noteq> 0) xs)))"
proof -
  obtain a b c d where "xs = [a, b, c, d]" using assms by (rule list4)
  then show ?thesis by (simp add: upt4)
qed

lemma sum_uint_nonneg: "0 \<le> sum_list (map uint (xs :: byte list))"
  by (induction xs) auto

lemma getBeatsPerMinute_quotient:
  assumes "length (rateArray c) = RATE_ARRAY_SIZE"
  shows "getBeatsPerMinute c = quotient_nonzero (rateArray c)"
proof -
  have l: "length (rateArray c) = 4" using assms by (simp add: RATE_ARRAY_SIZE_def)
  show ?thesis
    unfolding getBeatsPerMinute_def quotient_nonzero_def RATE_ARRAY_SIZE_def rate_loop [OF l]
    by (simp add: Let_def sdiv_pos sum_uint_nonneg)
qed

lemma sum_bounds:
  assumes "\<forall>e \<in> set xs. 20 \<le> uint e \<and> uint e \<le> 199"
  shows "20 * int (length xs) \<le> sum_list (map uint (xs :: byte list)) \<and>
         sum_list (map uint xs) \<le> 199 * int (length xs)"
  using assms by (induction xs) auto

lemma quotient_nonzero_range:
  assumes "\<forall>e \<in> set xs. e = 0 \<or> (20 \<le> uint e \<and> uint e \<le> 199)"
  shows "quotient_nonzero xs = 0 \<or> (20 \<le> quotient_nonzero xs \<and> quotient_nonzero xs \<le> 199)"
proof (cases "filter (\<lambda>e. e \<noteq> 0) xs = []")
  case True
  then show ?thesis by (simp add: quotient_nonzero_def)
next
  case False
  let ?nz = "filter (\<lambda>e. e \<noteq> 0) xs"
  have "\<forall>e \<in> set ?nz. 20 \<le> uint e \<and> uint e \<le> 199" using assms by auto
  from sum_bounds [OF this]
  have b: "20 * int (length ?nz) \<le> sum_list (map uint ?nz)"
          "sum_list (map uint ?nz) \<le> 199 * int (length ?nz)"
    by auto
  have p: "0 < int (length ?nz)" using False by simp
  have "(20 * int (length ?nz)) div int (length ?nz) \<le> sum_list (map uint ?nz) div int (length ?nz)"
    using b(1) p by (rule zdiv_mono1)
  moreover have "sum_list (map uint ?nz) div int (length ?nz)
                   \<le> (199 * int (length ?nz)) div int (length ?nz)"
    using b(2) p by (rule zdiv_mono1)
  ultimately show ?thesis using p False by (simp add: quotient_nonzero_def Let_def)
qed

text \<open>The integer quotient is the arithmetic mean rounded down.\<close>

lemma quotient_nonzero_floor:
  "quotient_nonzero xs =
     (if filter (\<lambda>e. e \<noteq> 0) xs = [] then 0
      else \<lfloor>real_of_int (sum_list (map uint (filter (\<lambda>e. e \<noteq> 0) xs)))
              / real (length (filter (\<lambda>e. e \<noteq> 0) xs))\<rfloor>)"
proof -
  have "\<lfloor>real_of_int k / real n\<rfloor> = k div int n" for k n
    using floor_divide_of_int_eq [of k "int n", where ?'a = real] by simp
  then show ?thesis by (simp add: quotient_nonzero_def Let_def)
qed

section \<open>The ring invariant holds on every run\<close>

lemma hr_inv_new: "hr_inv HeartRateCalculator_new"
  by (simp add: hr_inv_def HeartRateCalculator_new_def RATE_ARRAY_SIZE_def)

lemma hr_inv_checkForBeat:
  assumes "hr_inv c"
  shows "hr_inv (snd (checkForBeat sample now c))"
proof -
  have "\<And>d::long. 300 < sint d \<Longrightarrow> sint d < 3000 \<Longrightarrow>
      20 \<le> uint (ucast (long_div 60000 d) :: byte) \<and> uint (ucast (long_div 60000 d) :: byte) \<le> 199"
    using bpm_byte bpm_range by simp
  then show ?thesis
    using assms
    by (auto simp: hr_inv_def checkForBeat_def Let_def RATE_ARRAY_SIZE_def
             dest!: set_update_subset_insert [THEN subsetD])
qed

lemma reset_loop:
  assumes "length (xs :: byte list) = 4"
  shows "fold (\<lambda>i arr. arr[i := 0]) [0..<4] xs = [0, 0, 0, 0]"
proof -
  obtain a b c d where "xs = [a, b, c, d]" using assms by (rule list4)
  then show ?thesis by (simp add: upt4)
qed

lemma hr_inv_reset: "hr_inv c \<Longrightarrow> hr_inv (reset c)"
  by (simp add: hr_inv_def reset_def RATE_ARRAY_SIZE_def reset_loop)

lemma hr_inv_setThreshold: "hr_inv c \<Longrightarrow> hr_inv (setThreshold t c)"
  by (simp add: hr_inv_def setThreshold_def)

lemma hr_inv_step: "hr_inv c \<Longrightarrow> hr_inv (hr_step c call)"
  by (cases call) (simp_all add: hr_inv_checkForBeat hr_inv_reset hr_inv_setThreshold)

lemma hr_inv_foldl: "hr_inv c \<Longrightarrow> hr_inv (foldl hr_step c calls)"
  by (induction calls arbitrary: c) (simp_all add: hr_inv_step)

lemma hr_inv_run: "hr_inv (hr_run calls)"
  unfolding hr_run_def by (rule hr_inv_foldl [OF hr_inv_new])

section \<open>Claims about the beat detector\<close>

lemma beat_at_1000:
  "checkForBeat 1000 1000 HeartRateCalculator_new =
     (True, \<lparr>rateArray = [60, 0, 0, 0], rateSpot = 1, lastBeat = 1000,
             threshold = 512, beatDetected = True, lastBeatTime = 1000\<rparr>)"
  by (simp add: checkForBeat_def HeartRateCalculator_new_def RATE_ARRAY_SIZE_def long_div_def
                Let_def signed_divide_int_def rep4)

lemma quotient_nonzero_floor_mean: "quotient_nonzero xs = \<lfloor>arithmetic_mean_nonzero xs\<rfloor>"
  by (simp add: quotient_nonzero_floor arithmetic_mean_nonzero_def Let_def)

lemma two_beats_run:
  "hr_run two_beats =
     \<lparr>rateArray = [60, 75, 0, 0], rateSpot = 2, lastBeat = 1800,
      threshold = 496, beatDetected = True, lastBeatTime = 1800\<rparr>"
proof -
  define c1 :: HeartRateCalculator where
    "c1 = \<lparr>rateArray = [60, 0, 0, 0], rateSpot = 1, lastBeat = 1000,
            threshold = 512, beatDetected = True, lastBeatTime = 1000\<rparr>"
  define c2 :: HeartRateCalculator where
    "c2 = \<lparr>rateArray = [60, 0, 0, 0], rateSpot = 1, lastBeat = 1000,
            threshold = 496, beatDetected = False, lastBeatTime = 1000\<rparr>"
  have s1: "snd (checkForBeat 1000 1000 HeartRateCalculator_new) = c1"
    by (simp add: beat_at_1000 c1_def)
  have s2: "snd (checkForBeat 0 1100 c1) = c2"
    by (simp add: checkForBeat_def long_div_def Let_def signed_divide_int_def c1_def c2_def)
  have s3: "snd (checkForBeat 1000 1800 c2) =
              \<lparr>rateArray = [60, 75, 0, 0], rateSpot = 2, lastBeat = 1800,
               threshold = 496, beatDetected = True, lastBeatTime = 1800\<rparr>"
    by (simp add: checkForBeat_def long_div_def Let_def signed_divide_int_def
                  RATE_ARRAY_SIZE_def c2_def)
  show ?thesis
    by (simp add: hr_run_def two_beats_def s1 s2 s3)
qed

text \<open>
  C8, as stated, fails: the value returned is not the arithmetic mean when the mean is
  not a whole number. Beats at 1 s and 1.8 s put the rates 60 and 75 in the ring; their
  mean is 67.5 and \<open>getBeatsPerMinute()\<close>, which divides two \<open>int\<close>s, returns 67.
\<close>

theorem C8_mean_not_integral:
  "rateArray (hr_run two_beats) = [60, 75, 0, 0] \<and>
   getBeatsPerMinute (hr_run two_beats) = 67 \<and>
   arithmetic_mean_nonzero (rateArray (hr_run two_beats)) = 135 / 2 \<and>
   real_of_int (getBeatsPerMinute (hr_run two_beats))
     \<noteq> arithmetic_mean_nonzero (rateArray (hr_run two_beats))"
proof -
  have b: "getBeatsPerMinute (hr_run two_beats) = 67"
    by (simp add: two_beats_run getBeatsPerMinute_def RATE_ARRAY_SIZE_def upt4
                  signed_divide_int_def)
  have m: "arithmetic_mean_nonzero (rateArray (hr_run two_beats)) = 135 / 2"
    by (simp add: two_beats_run arithmetic_mean_nonzero_def)
  show ?thesis by (simp add: b m) (simp add: two_beats_run)
qed

text \<open>
  C8, amended. In every state the detector reaches from construction, through any calls
  of \<open>checkForBeat\<close>, \<open>getBeatsPerMinute\<close>, \<open>reset\<close> and \<open>setThreshold\<close>,
  \<open>getBeatsPerMinute()\<close> returns the arithmetic mean of the non-zero entries of the
  four-entry ring rounded down to a whole number, which is 0 when no entry is non-zero,
  and the value returned is 0 or lies between 20 and 200.
\<close>

theorem C8_bpm_floor_mean_and_range:
  "getBeatsPerMinute (hr_run calls) = \<lfloor>arithmetic_mean_nonzero (rateArray (hr_run calls))\<rfloor> \<and>
   getBeatsPerMinute (hr_run calls) \<in> {0} \<union> {20..200}"
proof -
  have i: "hr_inv (hr_run calls)" by (rule hr_inv_run)
  then have m: "getBeatsPerMinute (hr_run calls) = quotient_nonzero (rateArray (hr_run calls))"
    by (simp add: hr_inv_def getBeatsPerMinute_quotient)
  from i have "quotient_nonzero (rateArray (hr_run calls)) = 0 \<or>
     (20 \<le> quotient_nonzero (rateArray (hr_run calls)) \<and> quotient_nonzero (rateArray (hr_run calls)) \<le> 199)"
    by (intro quotient_nonzero_range) (simp add: hr_inv_def)
  with m show ?thesis by (auto simp: quotient_nonzero_floor_mean)
qed

lemma reset_fields:
  "rateSpot (reset c) = 0 \<and> lastBeat (reset c) = 0 \<and> \<not> beatDetected (reset c) \<and>
   threshold (reset c) = threshold c \<and> lastBeatTime (reset c) = lastBeatTime c"
  by (simp add: reset_def)

lemma reset_ring:
  assumes "length (rateArray c) = RATE_ARRAY_SIZE"
  shows "rateArray (reset c) = [0, 0, 0, 0]"
  using assms by (simp add: reset_def RATE_ARRAY_SIZE_def reset_loop)

lemma bpm_zero_ring:
  "rateArray c = [0, 0, 0, 0] \<Longrightarrow> getBeatsPerMinute c = 0"
  by (simp add: getBeatsPerMinute_def RATE_ARRAY_SIZE_def upt4)

text \<open>
  C9, as stated, fails: \<open>reset()\<close> does not clear the timestamp of the refractory check.
  The class has two timestamps, \<open>lastBeat\<close> for the inter-beat delta and
  \<open>lastBeatTime\<close> for the refractory check, and \<open>reset()\<close> assigns only the first.
  After a beat at 1000 ms and a \<open>reset()\<close>, \<open>lastBeatTime\<close> is still 1000, and a
  sample above the threshold at 1100 ms is refused as inside the refractory period, where
  a newly constructed detector accepts it.
\<close>

theorem C9_reset_keeps_refractory_stamp:
  "lastBeatTime (hr_run [CheckForBeat 1000 1000]) = 1000 \<and>
   lastBeatTime (reset (hr_run [CheckForBeat 1000 1000])) = 1000 \<and>
   \<not> fst (checkForBeat 1000 1100 (reset (hr_run [CheckForBeat 1000 1000]))) \<and>
   fst (checkForBeat 1000 1100 HeartRateCalculator_new)"
proof -
  have r: "hr_run [CheckForBeat 1000 1000] =
             \<lparr>rateArray = [60, 0, 0, 0], rateSpot = 1, lastBeat = 1000,
              threshold = 512, beatDetected = True, lastBeatTime = 1000\<rparr>"
    by (simp add: hr_run_def beat_at_1000)
  have "\<not> fst (checkForBeat 1000 1100 (reset (hr_run [CheckForBeat 1000 1000])))"
    unfolding r by (simp add: checkForBeat_def reset_def Let_def)
  moreover have "fst (checkForBeat 1000 1100 HeartRateCalculator_new)"
    by (simp add: checkForBeat_def HeartRateCalculator_new_def Let_def)
  ultimately show ?thesis by (simp add: r reset_def)
qed

text \<open>
  C9, amended. In every state the detector reaches, \<open>reset()\<close> zeroes the ring and its
  write index (so \<open>getBeatsPerMinute()\<close> is 0), clears the above-threshold latch and
  zeroes \<open>lastBeat\<close>, the timestamp of the inter-beat delta; it leaves the adaptive
  threshold and \<open>lastBeatTime\<close>, the timestamp of the refractory check, as they were.
  Of the other calls, \<open>getBeatsPerMinute\<close> leaves the threshold alone and
  \<open>checkForBeat\<close> either keeps it or replaces it by its smoothing update; only
  \<open>setThreshold\<close> assigns it a value given from outside.
\<close>

theorem C9_reset_frame:
  "rateArray (reset (hr_run calls)) = [0, 0, 0, 0] \<and>
   rateSpot (reset (hr_run calls)) = 0 \<and>
   getBeatsPerMinute (reset (hr_run calls)) = 0 \<and>
   \<not> beatDetected (reset (hr_run calls)) \<and>
   lastBeat (reset (hr_run calls)) = 0 \<and>
   threshold (reset (hr_run calls)) = threshold (hr_run calls) \<and>
   lastBeatTime (reset (hr_run calls)) = lastBeatTime (hr_run calls) \<and>
   threshold (hr_step (hr_run calls) GetBeatsPerMinute) = threshold (hr_run calls) \<and>
   threshold (hr_step (hr_run calls) (CheckForBeat sample now))
     \<in> {threshold (hr_run calls), long_div (threshold (hr_run calls) * 31 + sample) 32}"
proof -
  have "hr_inv (hr_run calls)" by (rule hr_inv_run)
  then have ring: "rateArray (reset (hr_run calls)) = [0, 0, 0, 0]"
    by (simp add: hr_inv_def reset_ring)
  have "threshold (hr_step (hr_run calls) (CheckForBeat sample now))
     \<in> {threshold (hr_run calls), long_div (threshold (hr_run calls) * 31 + sample) 32}"
    by (simp add: checkForBeat_def Let_def)
  then show ?thesis using ring reset_fields [of "hr_run calls"] bpm_zero_ring [OF ring]
    by simp
qed

section \<open>The adaptive threshold\<close>

lemma checkForBeat_threshold:
  "threshold (snd (checkForBeat sample now c)) =
     (if fst (checkForBeat sample now c) then threshold c
      else long_div (threshold c * 31 + sample) 32)"
  by (simp add: checkForBeat_def Let_def)

lemma sketch_checkForBeat_threshold:
  "sk_threshold (snd (sketch_checkForBeat sample now s)) =
     (if fst (sketch_checkForBeat sample now s) then sk_threshold s
      else long_div (sk_threshold s * 15 + sample) 16)"
  by (simp add: sketch_checkForBeat_def Let_def)

text \<open>
  The update in integers: while \<open>threshold * W + sample\<close> stays inside the range of a
  \<open>long\<close>, the new threshold is that sum divided by \<open>W + 1\<close>, truncated towards zero.
\<close>

lemma sdiv_pos_bounds:
  fixes k d :: int
  assumes "0 < d"
  shows "min k 0 \<le> k sdiv d \<and> k sdiv d \<le> max k 0"
proof (cases "0 \<le> k")
  case True
  then have "k sdiv d = k div d" using assms by (simp add: sdiv_pos)
  moreover have "0 \<le> k div d" using True assms by (simp add: pos_imp_zdiv_nonneg_iff)
  moreover have "k div d \<le> k" using True assms
    by (metis div_by_1 int_one_le_iff_zero_less zdiv_mono2 zero_less_one)
  ultimately show ?thesis using True by simp
next
  case False
  then have e: "k sdiv d = - ((- k) div d)" using assms
    by (simp add: signed_divide_int_def sgn_if)
  have "0 \<le> (- k) div d" using False assms by (simp add: pos_imp_zdiv_nonneg_iff)
  moreover have "(- k) div d \<le> - k" using False assms
    by (metis div_by_1 int_one_le_iff_zero_less zdiv_mono2 neg_0_le_iff_le linear)
  ultimately show ?thesis using False e by simp
qed

lemma long_reading:
  fixes t s :: long
  assumes "- (2 ^ 31) \<le> sint t * w + sint s" "sint t * w + sint s < 2 ^ 31"
  shows "sint (t * word_of_int w + s) = sint t * w + sint s"
proof -
  have "t * word_of_int w + s = word_of_int (sint t * w + sint s)" by simp
  then show ?thesis using assms
    by (simp only: sint_sbintrunc') (simp add: signed_take_bit_int_eq_self)
qed

lemma smoothing_reading:
  fixes t s :: long
  assumes "- (2 ^ 31) \<le> sint t * w + sint s" "sint t * w + sint s < 2 ^ 31"
          "0 < d" "d < 2 ^ 31"
  shows "sint (long_div (t * word_of_int w + s) (word_of_int d)) = (sint t * w + sint s) sdiv d"
proof -
  let ?k = "sint t * w + sint s"
  have k: "sint (t * word_of_int w + s) = ?k" using assms(1,2) by (rule long_reading)
  have d: "sint (word_of_int d :: long) = d" using assms(3,4)
    by (simp add: sint_sbintrunc' signed_take_bit_int_eq_self)
  have "min ?k 0 \<le> ?k sdiv d \<and> ?k sdiv d \<le> max ?k 0" using assms(3) by (rule sdiv_pos_bounds)
  then have "- (2 ^ 31) \<le> ?k sdiv d \<and> ?k sdiv d < 2 ^ 31" using assms(1,2) by auto
  then show ?thesis unfolding long_div_def k d
    by (simp add: sint_sbintrunc' signed_take_bit_int_eq_self)
qed

lemma smoothing_31: 
  fixes t s :: long
  assumes "- (2 ^ 31) \<le> sint t * 31 + sint s" "sint t * 31 + sint s < 2 ^ 31"
  shows "sint (long_div (t * 31 + s) 32) = (sint t * 31 + sint s) sdiv 32"
  using smoothing_reading [of t 31 s 32] assms by simp

lemma smoothing_15: 
  fixes t s :: long
  assumes "- (2 ^ 31) \<le> sint t * 15 + sint s" "sint t * 15 + sint s < 2 ^ 31"
  shows "sint (long_div (t * 15 + s) 16) = (sint t * 15 + sint s) sdiv 16"
  using smoothing_reading [of t 15 s 16] assms by simp

text \<open>
  C5, as stated, fails: the threshold is not updated on a sample that registers a beat.
  In \<open>HeartRateCalculator::checkForBeat\<close> and in the sketch's \<open>checkForBeat\<close> the
  registered beat returns \<open>true\<close> before the smoothing line. From the initial threshold
  512 a sample of 1000 at 1000 ms registers a beat and leaves the threshold at 512; the
  smoothing rule would give 527 (weight 31) and 542 (weight 15).
\<close>

theorem C5_threshold_frozen_on_beat:
  "fst (checkForBeat 1000 1000 HeartRateCalculator_new) \<and>
   threshold (snd (checkForBeat 1000 1000 HeartRateCalculator_new)) = 512 \<and>
   long_div (threshold HeartRateCalculator_new * 31 + 1000) 32 = 527 \<and>
   fst (sketch_checkForBeat 1000 1000 BeatSketch_init) \<and>
   sk_threshold (snd (sketch_checkForBeat 1000 1000 BeatSketch_init)) = 512 \<and>
   long_div (sk_threshold BeatSketch_init * 15 + 1000) 16 = 542"
  by (simp add: checkForBeat_def sketch_checkForBeat_def HeartRateCalculator_new_def
                BeatSketch_init_def Let_def long_div_def signed_divide_int_def)

text \<open>
  C5, amended. On every sample on which \<open>checkForBeat\<close> registers no beat (returns
  \<open>false\<close>) the threshold becomes \<open>(threshold * W + sample) / (W + 1)\<close> in \<open>long\<close>
  arithmetic, with \<open>W = 31\<close> in \<open>HeartRateCalculator\<close> and \<open>W = 15\<close> in the sketch;
  on a sample that registers a beat (returns \<open>true\<close>) the threshold is left as it was.
\<close>

theorem C5_threshold_smoothed_unless_beat:
  "(fst (checkForBeat sample now c) \<longrightarrow>
      threshold (snd (checkForBeat sample now c)) = threshold c) \<and>
   (\<not> fst (checkForBeat sample now c) \<longrightarrow>
      threshold (snd (checkForBeat sample now c)) = long_div (threshold c * 31 + sample) 32) \<and>
   (fst (sketch_checkForBeat sample now s) \<longrightarrow>
      sk_threshold (snd (sketch_checkForBeat sample now s)) = sk_threshold s) \<and>
   (\<not> fst (sketch_checkForBeat sample now s) \<longrightarrow>
      sk_threshold (snd (sketch_checkForBeat sample now s))
        = long_div (sk_threshold s * 15 + sample) 16)"
  by (simp add: checkForBeat_threshold sketch_checkForBeat_threshold)

text \<open>
  C5, witness: from the initial state a sample of 1000 registers a beat, a sample of 100
  does not, in the class and in the sketch.
\<close>

theorem C5_threshold_smoothed_unless_beat_witness:
  "fst (checkForBeat 1000 1000 HeartRateCalculator_new) \<and>
   threshold (snd (checkForBeat 1000 1000 HeartRateCalculator_new)) = 512 \<and>
   \<not> fst (checkForBeat 100 1000 HeartRateCalculator_new) \<and>
   threshold (snd (checkForBeat 100 1000 HeartRateCalculator_new)) = 499 \<and>
   fst (sketch_checkForBeat 1000 1000 BeatSketch_init) \<and>
   sk_threshold (snd (sketch_checkForBeat 1000 1000 BeatSketch_init)) = 512 \<and>
   \<not> fst (sketch_checkForBeat 100 1000 BeatSketch_init) \<and>
   sk_threshold (snd (sketch_checkForBeat 100 1000 BeatSketch_init)) = 486"
proof -
  have b: "fst (checkForBeat 1000 1000 HeartRateCalculator_new)"
    by (simp add: checkForBeat_def HeartRateCalculator_new_def Let_def)
  have n: "\<not> fst (checkForBeat 100 1000 HeartRateCalculator_new)"
    by (simp add: checkForBeat_def HeartRateCalculator_new_def Let_def)
  have sb: "fst (sketch_checkForBeat 1000 1000 BeatSketch_init)"
    by (simp add: sketch_checkForBeat_def BeatSketch_init_def Let_def)
  have sn: "\<not> fst (sketch_checkForBeat 100 1000 BeatSketch_init)"
    by (simp add: sketch_checkForBeat_def BeatSketch_init_def Let_def)
  have v: "threshold HeartRateCalculator_new = 512" "sk_threshold BeatSketch_init = 512"
    by (simp_all add: HeartRateCalculator_new_def BeatSketch_init_def)
  show ?thesis
    using C5_threshold_smoothed_unless_beat [of 1000 1000 HeartRateCalculator_new BeatSketch_init]
          C5_threshold_smoothed_unless_beat [of 100 1000 HeartRateCalculator_new BeatSketch_init]
          b n sb sn
    by (simp add: v long_div_def signed_divide_int_def)
qed

section \<open>The registered beat\<close>

text \<open>
  \<open>HeartRateCalculator::checkForBeat\<close> on a registered beat: the delta is the clock minus
  \<open>lastBeat\<close>; exactly when it lies strictly between 300 and 3000 the quotient
  \<open>60000 / delta\<close> is written at the ring's write index, which advances modulo 4; the
  two timestamps become the clock reading.
\<close>

lemma checkForBeat_registered:
  assumes "sint (threshold c) < sint sample" "\<not> beatDetected c" "300 < now - lastBeatTime c"
  shows "fst (checkForBeat sample now c) \<and>
         beatDetected (snd (checkForBeat sample now c)) \<and>
         lastBeat (snd (checkForBeat sample now c)) = now \<and>
         lastBeatTime (snd (checkForBeat sample now c)) = now \<and>
         (if 300 < sint (now - lastBeat c) \<and> sint (now - lastBeat c) < 3000
          then rateArray (snd (checkForBeat sample now c))
                 = (rateArray c)[rateSpot c := ucast (long_div 60000 (now - lastBeat c))] \<and>
               uint (ucast (long_div 60000 (now - lastBeat c)) :: byte)
                 = 60000 div sint (now - lastBeat c) \<and>
               rateSpot (snd (checkForBeat sample now c)) = (rateSpot c + 1) mod RATE_ARRAY_SIZE
          else rateArray (snd (checkForBeat sample now c)) = rateArray c \<and>
               rateSpot (snd (checkForBeat sample now c)) = rateSpot c)"
  using assms by (simp add: checkForBeat_def Let_def bpm_byte)

text \<open>The sketch with the rate ring does the same.\<close>

lemma sketch_checkForBeat_registered:
  assumes "sint (sk_threshold s) < sint sample" "\<not> sk_beatDetected s"
          "300 < now - sk_lastBeatTime s"
  shows "fst (sketch_checkForBeat sample now s) \<and>
         sk_lastBeat (snd (sketch_checkForBeat sample now s)) = now \<and>
         sk_lastBeatTime (snd (sketch_checkForBeat sample now s)) = now \<and>
         (if 300 < sint (now - sk_lastBeat s) \<and> sint (now - sk_lastBeat s) < 3000
          then sk_rateArray (snd (sketch_checkForBeat sample now s))
                 = (sk_rateArray s)[sk_rateSpot s := ucast (long_div 60000 (now - sk_lastBeat s))] \<and>
               sk_rateSpot (snd (sketch_checkForBeat sample now s))
                 = (sk_rateSpot s + 1) mod RATE_ARRAY_SIZE
          else sk_rateArray (snd (sketch_checkForBeat sample now s)) = sk_rateArray s \<and>
               sk_rateSpot (snd (sketch_checkForBeat sample now s)) = sk_rateSpot s)"
  using assms by (simp add: sketch_checkForBeat_def Let_def)

text \<open>The cardiac\_impo sketch never reports a beat.\<close>

lemma impo_never_reports_a_beat:"\<not> fst (impo_checkForBeat sample now s)"
  by (simp add: impo_checkForBeat_def Let_def)

text \<open>
  C4 on the cardiac\_impo sketch. With the initial state (threshold 512, previous beat at
  0) a sample of 600 at 1000 ms passes the beat test, and the delta to the previous beat
  is 1000 ms, inside the window. The sketch computes the delta from the timestamp it has
  just overwritten, gets 0, reports no beat and falls through to the threshold line.
\<close>

theorem C4_impo_delta_from_overwritten_stamp:
  "impo_expected_beat 1000 BeatImpo_init \<and>
   impo_checkForBeat 600 1000 BeatImpo_init =
     (False, \<lparr>im_lastSample = 600, im_threshold = 517, im_beatDetected = True,
              im_lastBeatTime = 1000\<rparr>)"
  by (simp add: impo_expected_beat_def impo_checkForBeat_def BeatImpo_init_def Let_def
                long_div_def signed_divide_int_def)

section \<open>The SpO2 estimator's sentinel\<close>

lemma calculateRatio_total: "\<exists>r. calculateRatio c = Inr r"
  by (simp add: calculateRatio_def fdiv_def)

text \<open>
  C7. Whatever the buffers hold, \<open>calculateSpO2()\<close> returns a value and never reaches a
  division with a zero divisor; and it returns the sentinel 0 whenever the buffer has not
  wrapped, or the DC component \<open>(max + min) / 2\<close> of either channel is zero, or the
  infrared modulation ratio \<open>irAC / irDC\<close> is zero.
\<close>

theorem C7_spo2_unknown_sentinel:
  "(\<exists>v. calculateSpO2 c = Inr v) \<and>
   (\<not> bufferFull c \<or> irDC c = 0 \<or> redDC c = 0 \<or> irAC c / irDC c = 0
      \<longrightarrow> calculateSpO2 c = Inr 0)"
  by (auto simp: calculateSpO2_def calculateRatio_def fdiv_def Let_def)

text \<open>A buffer filled with one pair: the scan finds that pair as every extremum.\<close>

lemma scan_flat_fold:
  fixes a b :: u32
  assumes "n < N" "irBuffer c = replicate N a" "redBuffer c = replicate N b"
  shows "fold (\<lambda>i (irMax, irMin, redMax, redMin).
             (if irMax < irBuffer c ! i then irBuffer c ! i else irMax,
              if irBuffer c ! i < irMin then irBuffer c ! i else irMin,
              if redMax < redBuffer c ! i then redBuffer c ! i else redMax,
              if redBuffer c ! i < redMin then redBuffer c ! i else redMin))
          [0..<Suc n] (0, 0xFFFFFFFF, 0, 0xFFFFFFFF) = (a, a, b, b)"
  using assms(1)
proof (induction n)
  case 0
  have m: "(0xFFFFFFFF :: u32) = - 1" by simp
  have "a \<le> 0xFFFFFFFF" "b \<le> 0xFFFFFFFF"
    unfolding m by (rule word_n1_ge)+
  then show ?case using 0 assms(2,3) by (auto simp: not_less)
next
  case (Suc n)
  then show ?case using assms(2,3) by simp
qed

lemma scan_flat: "scan_extrema (flat_buffers a b) = (a, a, b, b)"
proof -
  have n: "SPO2_CALC_BUFFER_SIZE = Suc 99" by (simp add: SPO2_CALC_BUFFER_SIZE_def)
  show ?thesis
    unfolding scan_extrema_def n
    by (rule scan_flat_fold [where N = 100]) (simp_all add: flat_buffers_def SPO2_CALC_BUFFER_SIZE_def)
qed

lemma upd_replicate:
  "k < N \<Longrightarrow> (replicate k a @ replicate (N - k) z)[k := a] = replicate (Suc k) a @ replicate (N - Suc k) z"
  by (simp add: list_update_append replicate_append_same Suc_diff_Suc [symmetric] del: replicate_Suc replicate.simps)
     (metis Suc_diff_Suc list_update_code(2) replicate_Suc replicate_append_same append_assoc append_Cons append_Nil)

lemma addSample_partial:
  assumes "k < SPO2_CALC_BUFFER_SIZE"
  shows "addSample a b
           \<lparr>irBuffer = replicate k a @ replicate (SPO2_CALC_BUFFER_SIZE - k) 0,
            redBuffer = replicate k b @ replicate (SPO2_CALC_BUFFER_SIZE - k) 0,
            bufferIndex = k, bufferFull = False\<rparr> =
         (if Suc k < SPO2_CALC_BUFFER_SIZE
          then \<lparr>irBuffer = replicate (Suc k) a @ replicate (SPO2_CALC_BUFFER_SIZE - Suc k) 0,
                redBuffer = replicate (Suc k) b @ replicate (SPO2_CALC_BUFFER_SIZE - Suc k) 0,
                bufferIndex = Suc k, bufferFull = False\<rparr>
          else flat_buffers a b)"
proof (cases "Suc k < SPO2_CALC_BUFFER_SIZE")
  case True
  then show ?thesis
    using assms
    by (simp add: addSample_def Let_def upd_replicate del: replicate_Suc replicate.simps)
next
  case False
  then have e: "SPO2_CALC_BUFFER_SIZE = Suc k" using assms by simp
  have "replicate (Suc k) a @ replicate (Suc k - Suc k) 0 = replicate (Suc k) a"
       "replicate (Suc k) b @ replicate (Suc k - Suc k) 0 = replicate (Suc k) b"
    by simp_all
  then show ?thesis
    using upd_replicate [of k "Suc k" a 0] upd_replicate [of k "Suc k" b 0]
    unfolding e
    by (simp add: addSample_def Let_def flat_buffers_def e del: replicate_Suc replicate.simps)
qed

lemma fill_partial:
  "k < SPO2_CALC_BUFFER_SIZE \<Longrightarrow>
   ((addSample a b) ^^ k) SpO2Calculator_new =
     \<lparr>irBuffer = replicate k a @ replicate (SPO2_CALC_BUFFER_SIZE - k) 0,
      redBuffer = replicate k b @ replicate (SPO2_CALC_BUFFER_SIZE - k) 0,
      bufferIndex = k, bufferFull = False\<rparr>"
proof (induction k)
  case 0
  then show ?case by (simp add: SpO2Calculator_new_def)
next
  case (Suc k)
  then have k: "k < SPO2_CALC_BUFFER_SIZE" by simp
  have "((addSample a b) ^^ Suc k) SpO2Calculator_new
          = addSample a b (((addSample a b) ^^ k) SpO2Calculator_new)"
    by (simp only: funpow.simps o_apply)
  then show ?case
    unfolding Suc.IH [OF k] addSample_partial [OF k] using Suc.prems by (simp only: if_True)
qed

lemma fill_wraps:
  "((addSample a b) ^^ SPO2_CALC_BUFFER_SIZE) SpO2Calculator_new = flat_buffers a b"
proof -
  have n: "SPO2_CALC_BUFFER_SIZE = Suc 99" by (simp add: SPO2_CALC_BUFFER_SIZE_def)
  have k: "99 < SPO2_CALC_BUFFER_SIZE" by (simp add: SPO2_CALC_BUFFER_SIZE_def)
  have l: "\<not> Suc 99 < SPO2_CALC_BUFFER_SIZE" by (simp add: SPO2_CALC_BUFFER_SIZE_def)
  have "((addSample a b) ^^ Suc 99) SpO2Calculator_new
          = addSample a b (((addSample a b) ^^ 99) SpO2Calculator_new)"
    by (simp only: funpow.simps o_apply)
  also have "\<dots> = flat_buffers a b"
    unfolding fill_partial [OF k] addSample_partial [OF k] using l by (simp only: if_False)
  finally show ?thesis unfolding n .
qed

text \<open>
  C7, witness: a new calculator (buffer not wrapped); a wrapped buffer of zeros (DC zero);
  a wrapped buffer of constant non-zero samples (no pulsatile part, infrared ratio zero).
\<close>

theorem C7_spo2_unknown_sentinel_witness:
  "\<not> bufferFull SpO2Calculator_new \<and> calculateSpO2 SpO2Calculator_new = Inr 0 \<and>
   bufferFull (flat_buffers 0 0) \<and> irDC (flat_buffers 0 0) = 0 \<and>
   calculateSpO2 (flat_buffers 0 0) = Inr 0 \<and>
   bufferFull (flat_buffers 60000 40000) \<and> irDC (flat_buffers 60000 40000) = 60000 \<and>
   redDC (flat_buffers 60000 40000) = 40000 \<and>
   irAC (flat_buffers 60000 40000) / irDC (flat_buffers 60000 40000) = 0 \<and>
   calculateSpO2 (flat_buffers 60000 40000) = Inr 0"
  using C7_spo2_unknown_sentinel [of SpO2Calculator_new]
        C7_spo2_unknown_sentinel [of "flat_buffers 0 0"]
        C7_spo2_unknown_sentinel [of "flat_buffers 60000 40000"]
  by (simp add: SpO2Calculator_new_def irDC_def redDC_def irAC_def scan_flat)
     (simp add: flat_buffers_def)

section \<open>Duplicate suppression in AlertManager\<close>

lemma first_alert_fields:
  "alertCount first_alert = 1 \<and>
   alerts first_alert ! 0 =
     \<lparr>am_type = ALERT_LOW_SPO2, am_message = ''Low SpO2'', am_timestamp = 1000,
      am_acknowledged = False\<rparr> \<and>
   length (alerts first_alert) = AM_MAX_ALERTS \<and>
   snd (addAlert ALERT_LOW_SPO2 ''Low SpO2'' 1000 AlertManager_new) =
     [Tone 1000 200, Delay 250, Tone 1000 200, Delay 250, Tone 1000 200, Delay 250,
      SerialPrint (''ALERT: Low SpO2'' @ [CHR 0x0A])]"
  by (simp add: first_alert_def addAlert_def recent_duplicate_def AlertManager_new_def
                AM_MAX_ALERTS_def playAlertTone_def Let_def numeral_3_eq_3)

lemma addAlert_duplicate:
  assumes "i < alertCount am"
      and "am_type (alerts am ! i) = t"
      and "now - am_timestamp (alerts am ! i) < 30000"
  shows "addAlert t msg now am = (am, [])"
proof -
  have "recent_duplicate t now am"
    unfolding recent_duplicate_def list_ex_iff using assms by auto
  then show ?thesis by (simp add: addAlert_def)
qed

text \<open>
  C10. If among the live alerts (indices below \<open>alertCount\<close>) there is one of the
  type being added whose timestamp is less than 30000 ms before the clock, \<open>addAlert\<close>
  returns at once: the manager is unchanged (array, count and every other field) and
  nothing is sent to the buzzer or the serial port. The premise does not mention the
  alert's \<open>acknowledged\<close> flag: the call is suppressed whatever that flag is.
\<close>

theorem C10_duplicate_suppressed:
  assumes "i < alertCount am"
      and "am_type (alerts am ! i) = t"
      and "now - am_timestamp (alerts am ! i) < 30000"
  shows "addAlert t msg now am = (am, [])"
  using assms by (rule addAlert_duplicate)

text \<open>The same with the flag of the matching alert set either way.\<close>

lemma duplicate_suppressed_any_acknowledged:
  assumes "i < alertCount am" "alertCount am \<le> length (alerts am)"
      and "am_type (alerts am ! i) = t"
      and "now - am_timestamp (alerts am ! i) < 30000"
  shows "addAlert t msg now (am\<lparr>alerts := (alerts am)[i := (alerts am ! i)\<lparr>am_acknowledged := b\<rparr>]\<rparr>)
           = (am\<lparr>alerts := (alerts am)[i := (alerts am ! i)\<lparr>am_acknowledged := b\<rparr>]\<rparr>, [])"
proof -
  have "i < length (alerts am)" using assms by simp
  then have e: "(alerts am)[i := (alerts am ! i)\<lparr>am_acknowledged := b\<rparr>] ! i
               = (alerts am ! i)\<lparr>am_acknowledged := b\<rparr>"
    by simp
  show ?thesis
    by (rule addAlert_duplicate [where i = i]) (use assms e in simp_all)
qed

text \<open>
  C10, witness: a low-SpO2 alert added at 1000 ms and then acknowledged; adding a
  low-SpO2 alert again at 5000 ms changes nothing and sounds nothing.
\<close>

theorem C10_duplicate_suppressed_witness:
  "(0::nat) < alertCount (acknowledgeAlert 0 first_alert) \<and>
   am_type (alerts (acknowledgeAlert 0 first_alert) ! 0) = ALERT_LOW_SPO2 \<and>
   am_acknowledged (alerts (acknowledgeAlert 0 first_alert) ! 0) \<and>
   (5000 :: ulong) - am_timestamp (alerts (acknowledgeAlert 0 first_alert) ! 0) < 30000 \<and>
   addAlert ALERT_LOW_SPO2 ''Low SpO2 again'' 5000 (acknowledgeAlert 0 first_alert)
     = (acknowledgeAlert 0 first_alert, [])"
proof -
  have f: "alertCount (acknowledgeAlert 0 first_alert) = 1"
          "alerts (acknowledgeAlert 0 first_alert) ! 0 =
             \<lparr>am_type = ALERT_LOW_SPO2, am_message = ''Low SpO2'', am_timestamp = 1000,
              am_acknowledged = True\<rparr>"
    using first_alert_fields by (simp_all add: acknowledgeAlert_def AM_MAX_ALERTS_def)
  show ?thesis
    using C10_duplicate_suppressed
            [of 0 "acknowledgeAlert 0 first_alert" ALERT_LOW_SPO2 5000 "''Low SpO2 again''"]
    by (simp add: f)
qed

section \<open>The sensor tick\<close>

lemma updateSensors_vitals:
  "heartRate (currentVitals (updateSensors maxim inp now m)) =
     (if sensor_available inp \<and> BUFFER_SIZE \<le> g_bufferIndex m + 1
      then if fingerDetected (updateSensors maxim inp now m)
           then (case maxim ((g_irBuffer m)[g_bufferIndex m := sensor_ir inp])
                            ((g_redBuffer m)[g_bufferIndex m := sensor_red inp]) of
                   (spo2', validSPO2', heartRate', validHeartRate') \<Rightarrow>
                     if validHeartRate' \<noteq> 0 \<and> heartRate' > 0 \<and> heartRate' < 200
                     then of_int heartRate' else heartRate (currentVitals m))
           else 0
      else heartRate (currentVitals m))"
  by (simp add: updateSensors_def Let_def split: prod.splits)

lemma updateSensors_spO2:
  "spO2 (currentVitals (updateSensors maxim inp now m)) =
     (if sensor_available inp \<and> BUFFER_SIZE \<le> g_bufferIndex m + 1
      then if fingerDetected (updateSensors maxim inp now m)
           then (case maxim ((g_irBuffer m)[g_bufferIndex m := sensor_ir inp])
                            ((g_redBuffer m)[g_bufferIndex m := sensor_red inp]) of
                   (spo2', validSPO2', heartRate', validHeartRate') \<Rightarrow>
                     if validSPO2' \<noteq> 0 \<and> spo2' > 0 \<and> spo2' \<le> 100
                     then of_int spo2' else spO2 (currentVitals m))
           else 0
      else spO2 (currentVitals m))"
  by (auto simp: updateSensors_def Let_def split: prod.splits)

lemma updateSensors_finger:
  "fingerDetected (updateSensors maxim inp now m) =
     (if sensor_available inp
      then FINGER_THRESHOLD < (g_irBuffer m)[g_bufferIndex m := sensor_ir inp] ! g_bufferIndex m
      else fingerDetected m)"
  "isFingerDetected (currentVitals (updateSensors maxim inp now m)) =
     (if sensor_available inp
      then FINGER_THRESHOLD < (g_irBuffer m)[g_bufferIndex m := sensor_ir inp] ! g_bufferIndex m
      else isFingerDetected (currentVitals m))"
  by (simp_all add: updateSensors_def Let_def split: prod.splits)

text \<open>A hundred finger-on ticks from \<open>setup()\<close> reach the measured state.\<close>

lemma nth_fill: "k < N \<Longrightarrow> (replicate (Suc k) a @ replicate (N - Suc k) z) ! k = a"
  by (simp add: nth_append del: replicate.simps)

lemma first_tick: "updateSensors maxim_72_98 finger_on t Monitor_init = filling 1 t"
proof -
  have u: "(replicate BUFFER_SIZE (0::u32))[0 := a] = replicate 1 a @ replicate (BUFFER_SIZE - 1) 0" for a
    using upd_replicate [of 0 BUFFER_SIZE a 0] by (simp add: BUFFER_SIZE_def)
  have n: "(replicate 1 a @ replicate (BUFFER_SIZE - 1) (0::u32)) ! 0 = a" for a
    by simp
  show ?thesis
    unfolding updateSensors_def filling_def
    by (simp add: Monitor_init_def finger_on_def Let_def u n del: replicate.simps One_nat_def)
       (simp add: BUFFER_SIZE_def FINGER_THRESHOLD_def)
qed

lemma next_tick:
  assumes "k < BUFFER_SIZE"
  shows "updateSensors maxim_72_98 finger_on t (filling k t0) =
           (if Suc k < BUFFER_SIZE then filling (Suc k) t else measured_at t)"
proof -
  have u: "(replicate k a @ replicate (BUFFER_SIZE - k) (0::u32))[k := a]
             = replicate (Suc k) a @ replicate (BUFFER_SIZE - Suc k) 0" for a
    using assms by (rule upd_replicate)
  have n: "(replicate (Suc k) a @ replicate (BUFFER_SIZE - Suc k) (0::u32)) ! k = a" for a
    using assms by (rule nth_fill)
  show ?thesis
  proof (cases "Suc k < BUFFER_SIZE")
    case True
    then show ?thesis
      unfolding updateSensors_def filling_def
      by (simp add: Monitor_init_def finger_on_def Let_def u n FINGER_THRESHOLD_def
               del: replicate.simps)
  next
    case False
    then have e: "BUFFER_SIZE = Suc k" using assms by simp
    have r: "replicate (Suc k) a @ replicate (Suc k - Suc k) (0::u32) = replicate (Suc k) a" for a
      by simp
    show ?thesis
      using False u n
      unfolding updateSensors_def filling_def measured_at_def measured_def e r
      by (simp add: Monitor_init_def finger_on_def Let_def FINGER_THRESHOLD_def maxim_72_98_def e
               del: replicate.simps)
  qed
qed

lemma more_ticks:
  "k + length ts < BUFFER_SIZE \<Longrightarrow>
   foldl mon_step (filling k t0) (ticks ts) = filling (k + length ts) (last (t0 # ts))"
proof (induction ts arbitrary: k t0)
  case Nil
  then show ?case by (simp add: ticks_def)
next
  case (Cons t ts)
  then have k: "k < BUFFER_SIZE" "Suc k < BUFFER_SIZE" "Suc k + length ts < BUFFER_SIZE" by simp_all
  have "foldl mon_step (filling k t0) (ticks (t # ts)) = foldl mon_step (filling (Suc k) t) (ticks ts)"
    using k by (simp add: ticks_def next_tick)
  then show ?case using Cons.IH [OF k(3), of t] by simp
qed

lemma full_buffer_run:
  assumes "length ts = BUFFER_SIZE - 2"
  shows "mon_run (ticks (t1 # ts @ [tn])) = measured_at tn"
proof -
  have l: "1 + length ts < BUFFER_SIZE" "1 + length ts = BUFFER_SIZE - 1" "BUFFER_SIZE - 1 < BUFFER_SIZE"
          "\<not> Suc (BUFFER_SIZE - 1) < BUFFER_SIZE"
    using assms by (simp_all add: BUFFER_SIZE_def)
  have "mon_run (ticks (t1 # ts @ [tn]))
          = mon_step (foldl mon_step (filling 1 t1) (ticks ts)) (UpdateSensors maxim_72_98 finger_on tn)"
    by (simp add: mon_run_def ticks_def first_tick)
  also have "\<dots> = updateSensors maxim_72_98 finger_on tn (filling (BUFFER_SIZE - 1) (last (t1 # ts)))"
    using more_ticks [OF l(1), of t1] l(2) by simp
  also have "\<dots> = measured_at tn"
    using next_tick [OF l(3)] l(4) by simp
  finally show ?thesis .
qed

lemma measured_reached: "mon_run (ticks tick_times) = measured"
proof -
  define ts where "ts = map (\<lambda>i. word_of_nat (100 * i) :: ulong) [Suc 1..<100]"
  have n: "BUFFER_SIZE + 1 = Suc 100" by (simp add: BUFFER_SIZE_def)
  have a: "[1..<Suc 100] = [1..<100] @ [100]" by (rule upt_Suc_append) simp
  have b: "[1..<100] = 1 # [Suc 1..<100]" by (rule upt_conv_Cons) simp
  have "tick_times = map (\<lambda>i. word_of_nat (100 * i)) (1 # [Suc 1..<100] @ [100])"
    unfolding tick_times_def n a by (subst b) simp
  then have t: "tick_times = 100 # ts @ [10000]"
    unfolding ts_def by (simp only: list.map map_append) simp
  have l: "length ts = BUFFER_SIZE - 2"
    unfolding ts_def by (simp only: length_map length_upt) (simp add: BUFFER_SIZE_def)
  have "mon_run (ticks (100 # ts @ [10000])) = measured_at 10000"
    using l by (rule full_buffer_run)
  then show ?thesis unfolding t by (simp add: measured_at_def measured_def)
qed

text \<open>
  C1, as stated, fails: a tick on which finger-presence evaluates false does not zero the
  readings unless that tick also fills the buffer. After a hundred finger-on ticks the
  snapshot shows heart rate 72 and SpO2 98 and the write index is back at 0. On the next
  tick the sample is below the finger threshold: the snapshot's finger flag is false and
  it still carries 72 and 98.
\<close>

theorem C1_stale_values_kept_until_wrap:
  "heartRate (currentVitals (mon_run (ticks tick_times))) = 72 \<and>
   spO2 (currentVitals (mon_run (ticks tick_times))) = 98 \<and>
   sensor_available finger_off \<and>
   \<not> fingerDetected (updateSensors maxim_72_98 finger_off 10100 (mon_run (ticks tick_times))) \<and>
   \<not> isFingerDetected
       (currentVitals (updateSensors maxim_72_98 finger_off 10100 (mon_run (ticks tick_times)))) \<and>
   heartRate
     (currentVitals (updateSensors maxim_72_98 finger_off 10100 (mon_run (ticks tick_times)))) = 72 \<and>
   spO2
     (currentVitals (updateSensors maxim_72_98 finger_off 10100 (mon_run (ticks tick_times)))) = 98"
  unfolding measured_reached
  by (simp add: updateSensors_vitals updateSensors_spO2 updateSensors_finger)
     (simp add: measured_def finger_off_def Monitor_init_def BUFFER_SIZE_def FINGER_THRESHOLD_def)

text \<open>
  C1, amended. On a tick on which the sensor delivers a sample, finger-presence evaluates
  false and the sample fills the buffer (the write index reaches \<open>BUFFER_SIZE\<close> and
  wraps), the snapshot has heart rate 0 and SpO2 0. On a tick that delivers no sample or
  does not fill the buffer, the snapshot keeps the heart rate and SpO2 of the previous
  one, whatever finger-presence evaluates to.
\<close>

theorem C1_zeroing_at_buffer_wrap:
  "(sensor_available inp \<and> \<not> fingerDetected (updateSensors maxim inp now m)
      \<and> BUFFER_SIZE \<le> g_bufferIndex m + 1 \<longrightarrow>
      heartRate (currentVitals (updateSensors maxim inp now m)) = 0 \<and>
      spO2 (currentVitals (updateSensors maxim inp now m)) = 0) \<and>
   (\<not> sensor_available inp \<or> g_bufferIndex m + 1 < BUFFER_SIZE \<longrightarrow>
      heartRate (currentVitals (updateSensors maxim inp now m)) = heartRate (currentVitals m) \<and>
      spO2 (currentVitals (updateSensors maxim inp now m)) = spO2 (currentVitals m))"
  by (simp add: updateSensors_vitals updateSensors_spO2)

text \<open>
  C1, witness: the finger-off sample arriving in the last slot of the buffer zeroes the
  readings 72 and 98; arriving in the first slot it leaves them.
\<close>

theorem C1_zeroing_at_buffer_wrap_witness:
  "sensor_available finger_off \<and>
   \<not> fingerDetected (updateSensors maxim_72_98 finger_off 10100 (measured\<lparr>g_bufferIndex := 99\<rparr>)) \<and>
   BUFFER_SIZE \<le> g_bufferIndex (measured\<lparr>g_bufferIndex := 99\<rparr>) + 1 \<and>
   heartRate (currentVitals (measured\<lparr>g_bufferIndex := 99\<rparr>)) = 72 \<and>
   heartRate (currentVitals
     (updateSensors maxim_72_98 finger_off 10100 (measured\<lparr>g_bufferIndex := 99\<rparr>))) = 0 \<and>
   spO2 (currentVitals
     (updateSensors maxim_72_98 finger_off 10100 (measured\<lparr>g_bufferIndex := 99\<rparr>))) = 0 \<and>
   g_bufferIndex measured + 1 < BUFFER_SIZE \<and>
   heartRate (currentVitals (updateSensors maxim_72_98 finger_off 10100 measured)) = 72 \<and>
   spO2 (currentVitals (updateSensors maxim_72_98 finger_off 10100 measured)) = 98"
proof -
  have f: "\<not> fingerDetected (updateSensors maxim_72_98 finger_off 10100 (measured\<lparr>g_bufferIndex := 99\<rparr>))"
    by (simp add: updateSensors_finger)
       (simp add: measured_def finger_off_def Monitor_init_def BUFFER_SIZE_def FINGER_THRESHOLD_def)
  have v: "sensor_available finger_off" "g_bufferIndex measured = 0" "BUFFER_SIZE = 100"
          "heartRate (currentVitals measured) = 72" "spO2 (currentVitals measured) = 98"
    by (simp_all add: finger_off_def measured_def Monitor_init_def BUFFER_SIZE_def)
  show ?thesis
    using C1_zeroing_at_buffer_wrap [of finger_off maxim_72_98 10100 "measured\<lparr>g_bufferIndex := 99\<rparr>"]
          C1_zeroing_at_buffer_wrap [of finger_off maxim_72_98 10100 measured]
          f
    by (simp add: v)
qed

section \<open>The alert engine\<close>

subsection \<open>The gate and the capacity bounds\<close>

lemma triggerAlert_blocked:
  "now - lastAlertTime m < ALERT_COOLDOWN \<Longrightarrow> triggerAlert lvl msg now m = m"
  by (simp add: triggerAlert_def)

lemma triggerAlert_fired:
  assumes "\<not> now - lastAlertTime m < ALERT_COOLDOWN"
  shows "lastAlertTime (triggerAlert lvl msg now m) = now"
    and "activeAlerts (triggerAlert lvl msg now m) =
           (if length (activeAlerts m) < MAX_ALERTS
            then activeAlerts m @ [new_alert lvl msg now] else activeAlerts m)"
    and "alertHistory (triggerAlert lvl msg now m) =
           (if length (alertHistory m) < MAX_HISTORY
            then alertHistory m @ [new_alert lvl msg now]
            else take (MAX_HISTORY - 1) (drop 1 (alertHistory m)) @ [new_alert lvl msg now]
                 @ drop MAX_HISTORY (alertHistory m))"
    and "currentVitals (triggerAlert lvl msg now m) = currentVitals m"
    and "alertThresholds (triggerAlert lvl msg now m) = alertThresholds m"
  using assms by (simp_all add: triggerAlert_def Let_def)


lemma alerts_inv_triggerAlert: "alerts_inv m \<Longrightarrow> alerts_inv (triggerAlert lvl msg now m)"
  by (auto simp: alerts_inv_def triggerAlert_def Let_def MAX_HISTORY_def MAX_ALERTS_def)

lemma alerts_inv_removeOldAlerts: "alerts_inv m \<Longrightarrow> alerts_inv (removeOldAlerts now m)"
  by (auto simp: alerts_inv_def removeOldAlerts_def intro: le_trans [OF length_filter_le])

lemma alerts_inv_checkAlerts: "alerts_inv m \<Longrightarrow> alerts_inv (checkAlerts now m)"
  by (simp add: checkAlerts_def Let_def alerts_inv_triggerAlert alerts_inv_removeOldAlerts)

lemma alerts_inv_updateSensors: "alerts_inv m \<Longrightarrow> alerts_inv (updateSensors maxim inp now m)"
  by (auto simp: alerts_inv_def updateSensors_def Let_def split: prod.splits)

lemma alerts_inv_trim: "alerts_inv m \<Longrightarrow> alerts_inv (trimAlertHistory m)"
  by (auto simp: alerts_inv_def trimAlertHistory_def)

lemma alerts_inv_step: "alerts_inv m \<Longrightarrow> alerts_inv (mon_step m call)"
  by (cases call)
     (simp_all add: alerts_inv_checkAlerts alerts_inv_updateSensors alerts_inv_trim, simp add: alerts_inv_def)

lemma alerts_inv_foldl: "alerts_inv m \<Longrightarrow> alerts_inv (foldl mon_step m calls)"
  by (induction calls arbitrary: m) (simp_all add: alerts_inv_step)

lemma alerts_inv_run: "alerts_inv (mon_run calls)"
  unfolding mon_run_def
  by (rule alerts_inv_foldl) (simp add: alerts_inv_def Monitor_init_def)

subsection \<open>Six low-battery cycles\<close>

lemma low_battery_message: "snprintf_message ''Low battery: '' 8 ''%'' = ''Low battery: 8%''"
  by (simp add: snprintf_message_def float_to_int_def show_int_def show_nat.simps [of 8] MAX_STRING_def)

lemma low_battery_start:
  "updateSensors maxim_72_98 battery_low 4900 Monitor_init = low_battery_state [] [] 0"
  by (simp add: updateSensors_def battery_low_def low_battery_state_def Monitor_init_def Let_def)

lemma checkAlerts_battery_only:
  assumes "enabled (alertThresholds m)" "\<not> isFingerDetected (currentVitals m)"
          "batteryLevel (currentVitals m) < batteryMin (alertThresholds m)"
          "batteryLevel (currentVitals m) < 10"
  shows "checkAlerts now m =
           removeOldAlerts now
             (triggerAlert ALERT_LEVEL_CRITICAL
                (snprintf_message ''Low battery: '' (batteryLevel (currentVitals m)) ''%'') now m)"
  using assms by (simp add: checkAlerts_def Let_def)

lemma low_battery_state_fields:
  "enabled (alertThresholds (low_battery_state active history t))"
  "\<not> isFingerDetected (currentVitals (low_battery_state active history t))"
  "batteryLevel (currentVitals (low_battery_state active history t)) = 8"
  "batteryMin (alertThresholds (low_battery_state active history t)) = 20"
  "activeAlerts (low_battery_state active history t) = active"
  "alertHistory (low_battery_state active history t) = history"
  "lastAlertTime (low_battery_state active history t) = t"
  by (simp_all add: low_battery_state_def Monitor_init_def)

lemma low_battery_trigger:
  assumes "\<not> now - t < ALERT_COOLDOWN" "length history < MAX_HISTORY"
  shows "triggerAlert ALERT_LEVEL_CRITICAL ''Low battery: 8%'' now (low_battery_state active history t) =
           low_battery_state
             (if length active < MAX_ALERTS then active @ [low_battery_alert now] else active)
             (history @ [low_battery_alert now]) now"
  using assms
  by (simp add: triggerAlert_def Let_def low_battery_state_def low_battery_alert_def)

lemma low_battery_purge:
  assumes "\<forall>a \<in> set active. keep_alert now a"
  shows "removeOldAlerts now (low_battery_state active history t) = low_battery_state active history t"
proof -
  have "filter (keep_alert now) active = active" using assms by simp
  then show ?thesis by (simp add: removeOldAlerts_def low_battery_state_def)
qed

lemma low_battery_cycle:
  assumes "\<not> now - t < ALERT_COOLDOWN"
          "\<forall>a \<in> set (if length active < MAX_ALERTS then active @ [low_battery_alert now] else active).
              keep_alert now a"
          "length history < MAX_HISTORY"
  shows "checkAlerts now (low_battery_state active history t) =
           low_battery_state
             (if length active < MAX_ALERTS then active @ [low_battery_alert now] else active)
             (history @ [low_battery_alert now]) now"
proof -
  have "checkAlerts now (low_battery_state active history t) =
          removeOldAlerts now
            (triggerAlert ALERT_LEVEL_CRITICAL ''Low battery: 8%'' now
               (low_battery_state active history t))"
    by (subst checkAlerts_battery_only) (simp_all add: low_battery_state_fields low_battery_message)
  then show ?thesis
    unfolding low_battery_trigger [OF assms(1,3)] low_battery_purge [OF assms(2)] .
qed

lemma keep_low_battery_alert: "keep_alert now (low_battery_alert t) \<longleftrightarrow> now - t \<le> 30000"
  by (simp add: keep_alert_def low_battery_alert_def new_alert_def)

lemma low_battery_run_result:
  "mon_run low_battery_run =
     low_battery_state [low_battery_alert 5000, low_battery_alert 10000, low_battery_alert 15000, low_battery_alert 20000, low_battery_alert 25000]
       [low_battery_alert 5000, low_battery_alert 10000, low_battery_alert 15000, low_battery_alert 20000, low_battery_alert 25000, low_battery_alert 30000] 30000"
proof -
  have c1: "checkAlerts 5000 (low_battery_state [] [] 0) =
               low_battery_state [low_battery_alert 5000] [low_battery_alert 5000] 5000"
    by (subst low_battery_cycle) (simp_all add: ALERT_COOLDOWN_def MAX_ALERTS_def MAX_HISTORY_def keep_low_battery_alert)
  have c2: "checkAlerts 10000 (low_battery_state [low_battery_alert 5000] [low_battery_alert 5000] 5000) =
               low_battery_state [low_battery_alert 5000, low_battery_alert 10000] [low_battery_alert 5000, low_battery_alert 10000] 10000"
    by (subst low_battery_cycle) (simp_all add: ALERT_COOLDOWN_def MAX_ALERTS_def MAX_HISTORY_def keep_low_battery_alert)
  have c3: "checkAlerts 15000 (low_battery_state [low_battery_alert 5000, low_battery_alert 10000] [low_battery_alert 5000, low_battery_alert 10000] 10000) =
               low_battery_state [low_battery_alert 5000, low_battery_alert 10000, low_battery_alert 15000] [low_battery_alert 5000, low_battery_alert 10000, low_battery_alert 15000] 15000"
    by (subst low_battery_cycle) (simp_all add: ALERT_COOLDOWN_def MAX_ALERTS_def MAX_HISTORY_def keep_low_battery_alert)
  have c4: "checkAlerts 20000 (low_battery_state [low_battery_alert 5000, low_battery_alert 10000, low_battery_alert 15000] [low_battery_alert 5000, low_battery_alert 10000, low_battery_alert 15000] 15000) =
               low_battery_state [low_battery_alert 5000, low_battery_alert 10000, low_battery_alert 15000, low_battery_alert 20000] [low_battery_alert 5000, low_battery_alert 10000, low_battery_alert 15000, low_battery_alert 20000] 20000"
    by (subst low_battery_cycle) (simp_all add: ALERT_COOLDOWN_def MAX_ALERTS_def MAX_HISTORY_def keep_low_battery_alert)
  have c5: "checkAlerts 25000 (low_battery_state [low_battery_alert 5000, low_battery_alert 10000, low_battery_alert 15000, low_battery_alert 20000] [low_battery_alert 5000, low_battery_alert 10000, low_battery_alert 15000, low_battery_alert 20000] 20000) =
               low_battery_state [low_battery_alert 5000, low_battery_alert 10000, low_battery_alert 15000, low_battery_alert 20000, low_battery_alert 25000] [low_battery_alert 5000, low_battery_alert 10000, low_battery_alert 15000, low_battery_alert 20000, low_battery_alert 25000] 25000"
    by (subst low_battery_cycle) (simp_all add: ALERT_COOLDOWN_def MAX_ALERTS_def MAX_HISTORY_def keep_low_battery_alert)
  have c6: "checkAlerts 30000 (low_battery_state [low_battery_alert 5000, low_battery_alert 10000, low_battery_alert 15000, low_battery_alert 20000, low_battery_alert 25000] [low_battery_alert 5000, low_battery_alert 10000, low_battery_alert 15000, low_battery_alert 20000, low_battery_alert 25000] 25000) =
               low_battery_state [low_battery_alert 5000, low_battery_alert 10000, low_battery_alert 15000, low_battery_alert 20000, low_battery_alert 25000] [low_battery_alert 5000, low_battery_alert 10000, low_battery_alert 15000, low_battery_alert 20000, low_battery_alert 25000, low_battery_alert 30000] 30000"
    by (subst low_battery_cycle) (simp_all add: ALERT_COOLDOWN_def MAX_ALERTS_def MAX_HISTORY_def keep_low_battery_alert)
  show ?thesis
    by (simp add: mon_run_def low_battery_run_def low_battery_start c1 c2 c3 c4 c5 c6)
qed

subsection \<open>One evaluation cycle triggers at most once\<close>

lemma triggerAlert_same_instant:
  "lastAlertTime m = now \<Longrightarrow> triggerAlert lvl msg now m = m"
  by (simp add: triggerAlert_def ALERT_COOLDOWN_def)

lemma triggerAlert_cases:
  "triggerAlert lvl msg now m = m \<or>
   (lastAlertTime (triggerAlert lvl msg now m) = now \<and>
    (activeAlerts (triggerAlert lvl msg now m) = activeAlerts m \<or>
     activeAlerts (triggerAlert lvl msg now m) = activeAlerts m @ [new_alert lvl msg now]))"
  by (simp add: triggerAlert_def Let_def)

lemma one_trigger_refl: "one_trigger now m m"
  by (simp add: one_trigger_def)

lemma one_trigger_step:
  assumes "one_trigger now m x"
  shows "one_trigger now m (triggerAlert lvl msg now x)"
proof (cases "x = m")
  case True
  then show ?thesis
    using triggerAlert_cases [of lvl msg now m] by (auto simp: one_trigger_def)
next
  case False
  then have "lastAlertTime x = now" using assms by (simp add: one_trigger_def)
  then have "triggerAlert lvl msg now x = x" by (rule triggerAlert_same_instant)
  then show ?thesis using assms by simp
qed

lemma one_trigger_if:
  "one_trigger now m x \<Longrightarrow> one_trigger now m (if c then triggerAlert lvl msg now x else x)"
  by (simp add: one_trigger_step)

lemma checkAlerts_enabled_shape:
  assumes "enabled (alertThresholds m)"
  shows "\<exists>x. one_trigger now m x \<and> checkAlerts now m = removeOldAlerts now x"
proof -
  obtain c1 l1 s1 c2 l2 s2 c3 l3 s3 where
    e: "checkAlerts now m =
          removeOldAlerts now
            (if c3 then triggerAlert l3 s3 now
                          (if c2 then triggerAlert l2 s2 now
                                        (if c1 then triggerAlert l1 s1 now m else m)
                           else (if c1 then triggerAlert l1 s1 now m else m))
             else (if c2 then triggerAlert l2 s2 now
                                (if c1 then triggerAlert l1 s1 now m else m)
                   else (if c1 then triggerAlert l1 s1 now m else m)))"
    using assms unfolding checkAlerts_def Let_def by (simp only: if_False not_True_eq_False)
  have "one_trigger now m (if c1 then triggerAlert l1 s1 now m else m)"
    by (intro one_trigger_if one_trigger_refl)
  then have "one_trigger now m
               (if c2 then triggerAlert l2 s2 now (if c1 then triggerAlert l1 s1 now m else m)
                else (if c1 then triggerAlert l1 s1 now m else m))"
    by (rule one_trigger_if)
  then have "one_trigger now m
               (if c3 then triggerAlert l3 s3 now
                          (if c2 then triggerAlert l2 s2 now
                                        (if c1 then triggerAlert l1 s1 now m else m)
                           else (if c1 then triggerAlert l1 s1 now m else m))
                else (if c2 then triggerAlert l2 s2 now
                                (if c1 then triggerAlert l1 s1 now m else m)
                      else (if c1 then triggerAlert l1 s1 now m else m)))"
    by (rule one_trigger_if)
  with e show ?thesis by blast
qed

lemma checkAlerts_shape:
  "checkAlerts now m = m \<or>
   (\<exists>x. one_trigger now m x \<and> checkAlerts now m = removeOldAlerts now x)"
  by (cases "enabled (alertThresholds m)")
     (simp_all add: checkAlerts_enabled_shape, simp add: checkAlerts_def)

lemma checkAlerts_one_cycle:
  "(lastAlertTime (checkAlerts now m) = lastAlertTime m \<and>
      subseq (activeAlerts (checkAlerts now m)) (activeAlerts m)) \<or>
   (lastAlertTime (checkAlerts now m) = now \<and>
      (\<exists>new. length new \<le> 1 \<and> subseq (activeAlerts (checkAlerts now m)) (activeAlerts m @ new)))"
proof -
  from checkAlerts_shape [of now m] show ?thesis
  proof
    assume "checkAlerts now m = m"
    then show ?thesis by simp
  next
    assume "\<exists>x. one_trigger now m x \<and> checkAlerts now m = removeOldAlerts now x"
    then obtain x where x: "one_trigger now m x" "checkAlerts now m = removeOldAlerts now x"
      by blast
    have f: "subseq (activeAlerts (removeOldAlerts now x)) (activeAlerts x)"
      by (simp add: removeOldAlerts_def)
    have l: "lastAlertTime (removeOldAlerts now x) = lastAlertTime x"
      by (simp add: removeOldAlerts_def)
    from x(1) consider "x = m" | "lastAlertTime x = now" "activeAlerts x = activeAlerts m"
      | a where "lastAlertTime x = now" "activeAlerts x = activeAlerts m @ [a]"
      by (auto simp: one_trigger_def)
    then show ?thesis
    proof cases
      case 1
      then show ?thesis using f l x(2) by simp
    next
      case 2
      then have "subseq (activeAlerts (checkAlerts now m)) (activeAlerts m @ [])"
        using f x(2) by simp
      then show ?thesis using 2 l x(2) by (intro disjI2 conjI exI [of _ "[]"]) simp_all
    next
      case 3
      then have "subseq (activeAlerts (checkAlerts now m)) (activeAlerts m @ [a])"
        using f x(2) by simp
      then show ?thesis using 3 l x(2) by (intro disjI2 conjI exI [of _ "[a]"]) simp_all
    qed
  qed
qed

subsection \<open>Inside the cooldown\<close>

lemma checkAlerts_blocked:
  assumes "now - lastAlertTime m < ALERT_COOLDOWN"
  shows "checkAlerts now m = (if enabled (alertThresholds m) then removeOldAlerts now m else m)"
  using assms by (simp add: checkAlerts_def Let_def triggerAlert_blocked)

lemma step_within_cooldown:
  assumes "within_cooldown (lastAlertTime m) c"
  shows "lastAlertTime (mon_step m c) = lastAlertTime m \<and>
         subseq (activeAlerts (mon_step m c)) (activeAlerts m) \<and>
         suffix (alertHistory (mon_step m c)) (alertHistory m)"
proof (cases c)
  case (UpdateSensors maxim inp t)
  then show ?thesis by (auto simp: updateSensors_def Let_def split: prod.splits)
next
  case (CheckAlerts t)
  then have "t - lastAlertTime m < ALERT_COOLDOWN" using assms by simp
  then show ?thesis using CheckAlerts
    by (simp add: checkAlerts_blocked removeOldAlerts_def)
next
  case TrimAlertHistory
  then show ?thesis by (simp add: trimAlertHistory_def suffix_drop)
next
  case (LoadSettings th)
  then show ?thesis by simp
qed

lemma run_within_cooldown:
  assumes "\<forall>c \<in> set calls. within_cooldown (lastAlertTime m) c"
  shows "lastAlertTime (foldl mon_step m calls) = lastAlertTime m \<and>
         subseq (activeAlerts (foldl mon_step m calls)) (activeAlerts m) \<and>
         suffix (alertHistory (foldl mon_step m calls)) (alertHistory m)"
  using assms
proof (induction calls arbitrary: m)
  case Nil
  then show ?case by simp
next
  case (Cons c calls)
  then have s: "lastAlertTime (mon_step m c) = lastAlertTime m"
               "subseq (activeAlerts (mon_step m c)) (activeAlerts m)"
               "suffix (alertHistory (mon_step m c)) (alertHistory m)"
    using step_within_cooldown [of m c] by simp_all
  then have "\<forall>x \<in> set calls. within_cooldown (lastAlertTime (mon_step m c)) x"
    using Cons.prems by simp
  from Cons.IH [OF this] show ?case
    using s by (auto intro: subseq_order.trans suffix_order.trans)
qed

lemma two_cycles:
  assumes "t2 - t1 < ALERT_COOLDOWN"
  shows "\<exists>new. length new \<le> 1 \<and>
           subseq (activeAlerts (checkAlerts t2 ((checkAlerts t1 m)\<lparr>currentVitals := v2,
                                                                     alertThresholds := th2\<rparr>)))
                  (activeAlerts m @ new)"
proof -
  let ?m1 = "checkAlerts t1 m"
  let ?m1' = "?m1\<lparr>currentVitals := v2, alertThresholds := th2\<rparr>"
  have f: "lastAlertTime ?m1' = lastAlertTime ?m1" "activeAlerts ?m1' = activeAlerts ?m1"
    by simp_all
  from checkAlerts_one_cycle [of t1 m] show ?thesis
  proof
    assume a: "lastAlertTime ?m1 = lastAlertTime m \<and> subseq (activeAlerts ?m1) (activeAlerts m)"
    from checkAlerts_one_cycle [of t2 ?m1']
    obtain new where n: "length new \<le> 1"
        "subseq (activeAlerts (checkAlerts t2 ?m1')) (activeAlerts ?m1' @ new)"
      by (metis append_Nil2 le0 list.size(3))
    have "subseq (activeAlerts ?m1' @ new) (activeAlerts m @ new)"
      using a f by (simp add: subseq_append')
    then show ?thesis using n by (meson subseq_order.trans)
  next
    assume b: "lastAlertTime ?m1 = t1 \<and>
               (\<exists>new. length new \<le> 1 \<and> subseq (activeAlerts ?m1) (activeAlerts m @ new))"
    then obtain new where n: "length new \<le> 1" "subseq (activeAlerts ?m1) (activeAlerts m @ new)"
      by blast
    have "t2 - lastAlertTime ?m1' < ALERT_COOLDOWN" using b assms by simp
    then have "subseq (activeAlerts (checkAlerts t2 ?m1')) (activeAlerts ?m1')"
      by (simp add: checkAlerts_blocked removeOldAlerts_def)
    then show ?thesis using n f by (metis subseq_order.trans)
  qed
qed

lemma low_battery_first_cycle:
  "checkAlerts 5000 (low_battery_state [] [] 0) =
     low_battery_state [low_battery_alert 5000] [low_battery_alert 5000] 5000"
  by (subst low_battery_cycle)
     (simp_all add: ALERT_COOLDOWN_def MAX_ALERTS_def MAX_HISTORY_def keep_low_battery_alert)

lemma low_battery_alert_inj: "low_battery_alert t = low_battery_alert t' \<longleftrightarrow> t = t'"
  by (simp add: low_battery_alert_def new_alert_def)

subsection \<open>The ESP32 sketch\<close>

lemma triggerAlert32_blocked:
  "now - e_lastAlertTime s < 5000 \<Longrightarrow> triggerAlert32 lvl msg now s = s"
  by (simp add: triggerAlert32_def)

lemma triggerAlert32_fired:
  assumes "\<not> now - e_lastAlertTime s < 5000"
  shows "e_lastAlertTime (triggerAlert32 lvl msg now s) = now"
    and "e_activeAlerts (triggerAlert32 lvl msg now s) =
           e_activeAlerts s
           @ [\<lparr>e_level = lvl, e_message = msg, e_timestamp = now, e_acknowledged = False\<rparr>]"
    and "e_alertHistory (triggerAlert32 lvl msg now s) =
           (if length (e_alertHistory s) < 50
            then e_alertHistory s
                 @ [\<lparr>e_level = lvl, e_message = msg, e_timestamp = now, e_acknowledged = False\<rparr>]
            else drop 1 (e_alertHistory s
                 @ [\<lparr>e_level = lvl, e_message = msg, e_timestamp = now, e_acknowledged = False\<rparr>]))"
  using assms by (auto simp: triggerAlert32_def Let_def)

lemma triggerAlert32_same_instant:
  "e_lastAlertTime s = now \<Longrightarrow> triggerAlert32 lvl msg now s = s"
  by (simp add: triggerAlert32_def)

lemma one_trigger32_step:
  assumes "one_trigger32 now s x"
  shows "one_trigger32 now s (if c then triggerAlert32 lvl msg now x else x)"
proof (cases "x = s")
  case True
  show ?thesis
  proof (cases "now - e_lastAlertTime s < 5000")
    case True
    then show ?thesis using \<open>x = s\<close> by (simp add: triggerAlert32_blocked one_trigger32_def)
  next
    case False
    then show ?thesis using \<open>x = s\<close> triggerAlert32_fired(1,2) [OF False]
      by (simp add: one_trigger32_def)
  qed
next
  case False
  then have "e_lastAlertTime x = now" using assms by (simp add: one_trigger32_def)
  then have "triggerAlert32 lvl msg now x = x" by (rule triggerAlert32_same_instant)
  then show ?thesis using assms by simp
qed

lemma checkAlerts32_enabled_shape:
  assumes "enabled (e_alertThresholds s)"
  shows "\<exists>x. one_trigger32 now s x \<and> checkAlerts32 now s = removeOldAlerts32 now x"
proof -
  obtain c1 l1 s1 c2 l2 s2 c3 l3 s3 where
    e: "checkAlerts32 now s =
          removeOldAlerts32 now
            (if c3 then triggerAlert32 l3 s3 now
                          (if c2 then triggerAlert32 l2 s2 now
                                        (if c1 then triggerAlert32 l1 s1 now s else s)
                           else (if c1 then triggerAlert32 l1 s1 now s else s))
             else (if c2 then triggerAlert32 l2 s2 now
                                (if c1 then triggerAlert32 l1 s1 now s else s)
                   else (if c1 then triggerAlert32 l1 s1 now s else s)))"
    using assms unfolding checkAlerts32_def Let_def by (simp only: if_False not_True_eq_False)
  have "one_trigger32 now s s" by (simp add: one_trigger32_def)
  then have "one_trigger32 now s (if c1 then triggerAlert32 l1 s1 now s else s)"
    by (rule one_trigger32_step)
  then have "one_trigger32 now s
               (if c2 then triggerAlert32 l2 s2 now (if c1 then triggerAlert32 l1 s1 now s else s)
                else (if c1 then triggerAlert32 l1 s1 now s else s))"
    by (rule one_trigger32_step)
  then have "one_trigger32 now s
               (if c3 then triggerAlert32 l3 s3 now
                          (if c2 then triggerAlert32 l2 s2 now
                                        (if c1 then triggerAlert32 l1 s1 now s else s)
                           else (if c1 then triggerAlert32 l1 s1 now s else s))
                else (if c2 then triggerAlert32 l2 s2 now
                                (if c1 then triggerAlert32 l1 s1 now s else s)
                      else (if c1 then triggerAlert32 l1 s1 now s else s)))"
    by (rule one_trigger32_step)
  with e show ?thesis by blast
qed

lemma checkAlerts32_disabled:
  "\<not> enabled (e_alertThresholds s) \<Longrightarrow> checkAlerts32 now s = s"
  by (simp add: checkAlerts32_def)

lemma checkAlerts32_blocked:
  assumes "now - e_lastAlertTime s < 5000"
  shows "checkAlerts32 now s = (if enabled (e_alertThresholds s) then removeOldAlerts32 now s else s)"
  using assms by (simp add: checkAlerts32_def Let_def triggerAlert32_blocked)

lemma checkAlerts32_one_cycle:
  "(e_lastAlertTime (checkAlerts32 now s) = e_lastAlertTime s \<and>
      subseq (e_activeAlerts (checkAlerts32 now s)) (e_activeAlerts s)) \<or>
   (e_lastAlertTime (checkAlerts32 now s) = now \<and>
      (\<exists>new. length new \<le> 1 \<and>
         subseq (e_activeAlerts (checkAlerts32 now s)) (e_activeAlerts s @ new)))"
proof (cases "enabled (e_alertThresholds s)")
  case False
  then show ?thesis by (simp add: checkAlerts32_disabled)
next
  case True
  from checkAlerts32_enabled_shape [OF True, of now]
  obtain x where x: "one_trigger32 now s x" "checkAlerts32 now s = removeOldAlerts32 now x"
    by blast
  have f: "subseq (e_activeAlerts (removeOldAlerts32 now x)) (e_activeAlerts x)"
    by (simp add: removeOldAlerts32_def)
  have l: "e_lastAlertTime (removeOldAlerts32 now x) = e_lastAlertTime x"
    by (simp add: removeOldAlerts32_def)
  from x(1) consider "x = s"
    | a where "e_lastAlertTime x = now" "e_activeAlerts x = e_activeAlerts s @ [a]"
    by (auto simp: one_trigger32_def)
  then show ?thesis
  proof cases
    case 1
    then show ?thesis using f l x(2) by simp
  next
    case 2
    then have "subseq (e_activeAlerts (checkAlerts32 now s)) (e_activeAlerts s @ [a])"
      using f x(2) by simp
    then show ?thesis using 2 l x(2) by (intro disjI2 conjI exI [of _ "[a]"]) simp_all
  qed
qed

lemma two_cycles32:
  assumes "t2 - t1 < 5000"
  shows "\<exists>new. length new \<le> 1 \<and>
           subseq (e_activeAlerts
                     (checkAlerts32 t2 ((checkAlerts32 t1 s)\<lparr>e_currentVitals := v2,
                                                                e_alertThresholds := th2\<rparr>)))
                  (e_activeAlerts s @ new)"
proof -
  let ?s1 = "checkAlerts32 t1 s"
  let ?s1' = "?s1\<lparr>e_currentVitals := v2, e_alertThresholds := th2\<rparr>"
  have f: "e_lastAlertTime ?s1' = e_lastAlertTime ?s1" "e_activeAlerts ?s1' = e_activeAlerts ?s1"
    by simp_all
  from checkAlerts32_one_cycle [of t1 s] show ?thesis
  proof
    assume a: "e_lastAlertTime ?s1 = e_lastAlertTime s \<and>
               subseq (e_activeAlerts ?s1) (e_activeAlerts s)"
    from checkAlerts32_one_cycle [of t2 ?s1']
    obtain new where n: "length new \<le> 1"
        "subseq (e_activeAlerts (checkAlerts32 t2 ?s1')) (e_activeAlerts ?s1' @ new)"
      by (metis append_Nil2 le0 list.size(3))
    have "subseq (e_activeAlerts ?s1' @ new) (e_activeAlerts s @ new)"
      using a f by (simp add: subseq_append')
    then show ?thesis using n by (meson subseq_order.trans)
  next
    assume b: "e_lastAlertTime ?s1 = t1 \<and>
               (\<exists>new. length new \<le> 1 \<and> subseq (e_activeAlerts ?s1) (e_activeAlerts s @ new))"
    then obtain new where n: "length new \<le> 1"
        "subseq (e_activeAlerts ?s1) (e_activeAlerts s @ new)"
      by blast
    have "t2 - e_lastAlertTime ?s1' < 5000" using b assms by simp
    then have "subseq (e_activeAlerts (checkAlerts32 t2 ?s1')) (e_activeAlerts ?s1')"
      by (simp add: checkAlerts32_blocked removeOldAlerts32_def)
    then show ?thesis using n f by (metis subseq_order.trans)
  qed
qed

lemma history32_inv_trigger: "history32_inv s \<Longrightarrow> history32_inv (triggerAlert32 lvl msg now s)"
  by (auto simp: history32_inv_def triggerAlert32_def Let_def)

lemma history32_inv_checkAlerts: "history32_inv s \<Longrightarrow> history32_inv (checkAlerts32 now s)"
proof -
  have r: "history32_inv (removeOldAlerts32 now x) = history32_inv x" for x
    by (simp add: history32_inv_def removeOldAlerts32_def)
  assume "history32_inv s"
  then show ?thesis
    by (simp add: checkAlerts32_def Let_def r history32_inv_trigger)
qed

lemma history32_inv_step: "history32_inv s \<Longrightarrow> history32_inv (eng_step s c)"
  by (cases c) (auto simp: history32_inv_checkAlerts, auto simp: history32_inv_def trimHistory32_def)

lemma history32_inv_run: "history32_inv (eng_run calls)"
proof -
  have "history32_inv s \<Longrightarrow> history32_inv (foldl eng_step s calls)" for s
    by (induction calls arbitrary: s) (simp_all add: history32_inv_step)
  then show ?thesis
    unfolding eng_run_def by (simp add: history32_inv_def Engine32_init_def)
qed

subsection \<open>Claims about the alert engine\<close>

text \<open>
  C2, as stated, fails: an alert triggered while Active Alerts is at capacity is not
  retained there. With the battery at 8 per cent, evaluation cycles at 5, 10, 15, 20 and
  25 s each raise an alert; all five are under 30 s old at 30 s, so the active array is
  full when the cycle at 30 s passes the cooldown gate. That alert is stamped, sounded
  and appended to the history, and is not in Active Alerts: \<open>triggerAlert\<close> writes the
  active array only under \<open>activeAlertsCount < MAX_ALERTS\<close> and evicts nothing.
\<close>

theorem C2_alert_dropped_when_active_full:
  "activeAlerts (mon_run low_battery_run) =
     [low_battery_alert 5000, low_battery_alert 10000, low_battery_alert 15000,
      low_battery_alert 20000, low_battery_alert 25000] \<and>
   length (activeAlerts (mon_run low_battery_run)) = MAX_ALERTS \<and>
   lastAlertTime (mon_run low_battery_run) = 30000 \<and>
   low_battery_alert 30000 \<in> set (alertHistory (mon_run low_battery_run)) \<and>
   low_battery_alert 30000 \<notin> set (activeAlerts (mon_run low_battery_run))"
  unfolding low_battery_run_result
  by (simp add: low_battery_state_fields low_battery_alert_inj MAX_ALERTS_def)

text \<open>
  C2, amended. In the sketch with fixed arrays, at every state reached from setup Active
  Alerts holds at most \<open>MAX_ALERTS\<close> entries and Alert History at most
  \<open>MAX_HISTORY\<close>. An alert that passes the cooldown gate is always appended to the
  history, which when full first loses its oldest entry; it is appended to Active Alerts
  only when fewer than \<open>MAX_ALERTS\<close> are active, and otherwise Active Alerts is left as
  it is. In the ESP32 sketch the history holds at most 50 entries with the same
  oldest-first eviction, and the alert is always appended to Active Alerts, which has no
  capacity check.
\<close>

theorem C2_bounded_and_history_fifo:
  "length (activeAlerts (mon_run calls)) \<le> MAX_ALERTS \<and>
   length (alertHistory (mon_run calls)) \<le> MAX_HISTORY \<and>
   (\<not> now - lastAlertTime (mon_run calls) < ALERT_COOLDOWN \<longrightarrow>
      alertHistory (triggerAlert lvl msg now (mon_run calls)) =
        (if length (alertHistory (mon_run calls)) < MAX_HISTORY
         then alertHistory (mon_run calls) else tl (alertHistory (mon_run calls)))
        @ [new_alert lvl msg now] \<and>
      activeAlerts (triggerAlert lvl msg now (mon_run calls)) =
        (if length (activeAlerts (mon_run calls)) < MAX_ALERTS
         then activeAlerts (mon_run calls) @ [new_alert lvl msg now]
         else activeAlerts (mon_run calls))) \<and>
   length (e_alertHistory (eng_run ecalls)) \<le> 50 \<and>
   (\<not> now - e_lastAlertTime (eng_run ecalls) < 5000 \<longrightarrow>
      e_alertHistory (triggerAlert32 lvl32 msg now (eng_run ecalls)) =
        (if length (e_alertHistory (eng_run ecalls)) < 50
         then e_alertHistory (eng_run ecalls) else tl (e_alertHistory (eng_run ecalls)))
        @ [alert32 lvl32 msg now] \<and>
      e_activeAlerts (triggerAlert32 lvl32 msg now (eng_run ecalls)) =
        e_activeAlerts (eng_run ecalls) @ [alert32 lvl32 msg now])"
proof -
  have i: "alerts_inv (mon_run calls)" by (rule alerts_inv_run)
  then have b: "length (activeAlerts (mon_run calls)) \<le> MAX_ALERTS"
               "length (alertHistory (mon_run calls)) \<le> MAX_HISTORY"
    by (simp_all add: alerts_inv_def)
  have f: "length (alertHistory (mon_run calls)) = MAX_HISTORY"
    if "\<not> length (alertHistory (mon_run calls)) < MAX_HISTORY"
    using that b(2) by simp
  have uno: "\<not> now - lastAlertTime (mon_run calls) < ALERT_COOLDOWN \<longrightarrow>
      alertHistory (triggerAlert lvl msg now (mon_run calls)) =
        (if length (alertHistory (mon_run calls)) < MAX_HISTORY
         then alertHistory (mon_run calls) else tl (alertHistory (mon_run calls)))
        @ [new_alert lvl msg now] \<and>
      activeAlerts (triggerAlert lvl msg now (mon_run calls)) =
        (if length (activeAlerts (mon_run calls)) < MAX_ALERTS
         then activeAlerts (mon_run calls) @ [new_alert lvl msg now]
         else activeAlerts (mon_run calls))"
    using f b by (simp add: triggerAlert_fired drop_Suc)
  have h: "length (e_alertHistory (eng_run ecalls)) \<le> 50"
    using history32_inv_run [of ecalls] by (simp add: history32_inv_def)
  have g: "length (e_alertHistory (eng_run ecalls)) = 50"
    if "\<not> length (e_alertHistory (eng_run ecalls)) < 50"
    using that h by simp
  have esp: "\<not> now - e_lastAlertTime (eng_run ecalls) < 5000 \<longrightarrow>
      e_alertHistory (triggerAlert32 lvl32 msg now (eng_run ecalls)) =
        (if length (e_alertHistory (eng_run ecalls)) < 50
         then e_alertHistory (eng_run ecalls) else tl (e_alertHistory (eng_run ecalls)))
        @ [alert32 lvl32 msg now] \<and>
      e_activeAlerts (triggerAlert32 lvl32 msg now (eng_run ecalls)) =
        e_activeAlerts (eng_run ecalls) @ [alert32 lvl32 msg now]"
    using g h by (simp add: triggerAlert32_fired alert32_def drop_Suc)
  show ?thesis using b uno h esp by blast
qed

text \<open>
  C2, witness: after the six low-battery cycles a further alert at 35 s passes the gate,
  goes to the history (6 of 20 entries) and not to the full active array; on the ESP32
  engine's initial state it goes to both.
\<close>

theorem C2_bounded_and_history_fifo_witness:
  "\<not> 35000 - lastAlertTime (mon_run low_battery_run) < ALERT_COOLDOWN \<and>
   length (alertHistory (mon_run low_battery_run)) < MAX_HISTORY \<and>
   \<not> length (activeAlerts (mon_run low_battery_run)) < MAX_ALERTS \<and>
   alertHistory (triggerAlert ALERT_LEVEL_WARNING ''Low SpO2: 93%'' 35000 (mon_run low_battery_run)) =
     alertHistory (mon_run low_battery_run) @ [new_alert ALERT_LEVEL_WARNING ''Low SpO2: 93%'' 35000] \<and>
   activeAlerts (triggerAlert ALERT_LEVEL_WARNING ''Low SpO2: 93%'' 35000 (mon_run low_battery_run)) =
     activeAlerts (mon_run low_battery_run) \<and>
   \<not> 35000 - e_lastAlertTime (eng_run []) < 5000 \<and>
   e_alertHistory (triggerAlert32 WARNING ''Low SpO2: 93%'' 35000 (eng_run [])) =
     [alert32 WARNING ''Low SpO2: 93%'' 35000] \<and>
   e_activeAlerts (triggerAlert32 WARNING ''Low SpO2: 93%'' 35000 (eng_run [])) =
     [alert32 WARNING ''Low SpO2: 93%'' 35000]"
proof -
  have f: "lastAlertTime (mon_run low_battery_run) = 30000"
          "length (alertHistory (mon_run low_battery_run)) = 6"
          "length (activeAlerts (mon_run low_battery_run)) = 5"
    unfolding low_battery_run_result by (simp_all add: low_battery_state_fields)
  have g: "e_lastAlertTime (eng_run []) = 0" "e_alertHistory (eng_run []) = []"
          "e_activeAlerts (eng_run []) = []"
    by (simp_all add: eng_run_def Engine32_init_def)
  show ?thesis
    using C2_bounded_and_history_fifo
            [where calls = low_battery_run and now = 35000 and lvl = ALERT_LEVEL_WARNING
               and msg = "''Low SpO2: 93%''" and ecalls = "[]" and ?lvl32.0 = WARNING]
    by (simp add: f g ALERT_COOLDOWN_def MAX_HISTORY_def MAX_ALERTS_def)
qed

text \<open>
  C3. One gate for every alert type. An alert that passes the gate at \<open>t1\<close> stamps
  \<open>lastAlertTime = t1\<close>. From a state so stamped, through any steps of the main loop
  whose evaluation cycles read a clock less than 5 s after \<open>t1\<close>, the stamp stays, Active
  Alerts only loses entries and the history only loses its oldest entries: no alert of
  any type is triggered. In particular a \<open>triggerAlert\<close> call less than 5 s after the
  stamp changes nothing, and two evaluation cycles less than 5 s apart, whatever the
  vitals and thresholds of each, leave in Active Alerts a subsequence of the earlier
  entries followed by at most one new alert. Both sketches.
\<close>

theorem C3_shared_cooldown:
  "(\<not> t1 - lastAlertTime m < ALERT_COOLDOWN \<longrightarrow>
      lastAlertTime (triggerAlert lvl msg t1 m) = t1) \<and>
   (lastAlertTime m = t1 \<and> (\<forall>c \<in> set calls. within_cooldown t1 c) \<longrightarrow>
      lastAlertTime (foldl mon_step m calls) = t1 \<and>
      subseq (activeAlerts (foldl mon_step m calls)) (activeAlerts m) \<and>
      suffix (alertHistory (foldl mon_step m calls)) (alertHistory m)) \<and>
   (t2 - t1 < ALERT_COOLDOWN \<longrightarrow>
      (lastAlertTime m = t1 \<longrightarrow> triggerAlert lvl msg t2 m = m) \<and>
      (\<exists>new. length new \<le> 1 \<and>
         subseq (activeAlerts (checkAlerts t2 ((checkAlerts t1 m)\<lparr>currentVitals := v2,
                                                                   alertThresholds := th2\<rparr>)))
                (activeAlerts m @ new))) \<and>
   (t2 - t1 < 5000 \<longrightarrow>
      (e_lastAlertTime s = t1 \<longrightarrow> triggerAlert32 lvl32 msg t2 s = s) \<and>
      (\<exists>new. length new \<le> 1 \<and>
         subseq (e_activeAlerts
                   (checkAlerts32 t2 ((checkAlerts32 t1 s)\<lparr>e_currentVitals := v2,
                                                              e_alertThresholds := th2\<rparr>)))
                (e_activeAlerts s @ new)))"
proof -
  have a: "\<not> t1 - lastAlertTime m < ALERT_COOLDOWN \<longrightarrow>
             lastAlertTime (triggerAlert lvl msg t1 m) = t1"
    by (simp add: triggerAlert_fired)
  have b: "lastAlertTime m = t1 \<and> (\<forall>c \<in> set calls. within_cooldown t1 c) \<longrightarrow>
      lastAlertTime (foldl mon_step m calls) = t1 \<and>
      subseq (activeAlerts (foldl mon_step m calls)) (activeAlerts m) \<and>
      suffix (alertHistory (foldl mon_step m calls)) (alertHistory m)"
    using run_within_cooldown [of calls m] by auto
  have c: "t2 - t1 < ALERT_COOLDOWN \<longrightarrow>
      (lastAlertTime m = t1 \<longrightarrow> triggerAlert lvl msg t2 m = m) \<and>
      (\<exists>new. length new \<le> 1 \<and>
         subseq (activeAlerts (checkAlerts t2 ((checkAlerts t1 m)\<lparr>currentVitals := v2,
                                                                   alertThresholds := th2\<rparr>)))
                (activeAlerts m @ new))"
    using two_cycles [where ?t2.0 = t2 and ?t1.0 = t1 and m = m and ?v2.0 = v2 and ?th2.0 = th2] by (auto simp: triggerAlert_blocked)
  have d: "t2 - t1 < 5000 \<longrightarrow>
      (e_lastAlertTime s = t1 \<longrightarrow> triggerAlert32 lvl32 msg t2 s = s) \<and>
      (\<exists>new. length new \<le> 1 \<and>
         subseq (e_activeAlerts
                   (checkAlerts32 t2 ((checkAlerts32 t1 s)\<lparr>e_currentVitals := v2,
                                                              e_alertThresholds := th2\<rparr>)))
                (e_activeAlerts s @ new))"
    using two_cycles32 [where ?t2.0 = t2 and ?t1.0 = t1 and s = s and ?v2.0 = v2 and ?th2.0 = th2] by (auto simp: triggerAlert32_blocked)
  show ?thesis using a b c d by blast
qed

text \<open>
  C3, witness: the low-battery alert at 5 s passes the gate; a sensor tick and cycles at
  6 s and 7 s follow inside its cooldown; a low-SpO2 alert at 6 s is dropped.
\<close>

theorem C3_shared_cooldown_witness:
  "\<not> 5000 - lastAlertTime (low_battery_state [] [] 0) < ALERT_COOLDOWN \<and>
   lastAlertTime (triggerAlert ALERT_LEVEL_CRITICAL ''Low battery: 8%'' 5000
                    (low_battery_state [] [] 0)) = 5000 \<and>
   lastAlertTime after_first = 5000 \<and>
   within_cooldown 5000 (CheckAlerts 6000) \<and> within_cooldown 5000 (CheckAlerts 7000) \<and>
   lastAlertTime (foldl mon_step after_first busy_window) = 5000 \<and>
   subseq (activeAlerts (foldl mon_step after_first busy_window)) (activeAlerts after_first) \<and>
   suffix (alertHistory (foldl mon_step after_first busy_window)) (alertHistory after_first) \<and>
   (6000 :: ulong) - 5000 < ALERT_COOLDOWN \<and>
   triggerAlert ALERT_LEVEL_WARNING ''Low SpO2: 93%'' 6000 after_first = after_first \<and>
   e_lastAlertTime on_state32 = 25000 \<and> (26000 :: ulong) - 25000 < 5000 \<and>
   triggerAlert32 WARNING ''Low SpO2: 93%'' 26000 on_state32 = on_state32"
proof -
  have f: "lastAlertTime (low_battery_state [] [] 0) = 0" "lastAlertTime after_first = 5000"
          "e_lastAlertTime on_state32 = 25000"
    by (simp_all add: after_first_def low_battery_state_fields on_state32_def)
  have w: "\<forall>c \<in> set busy_window. within_cooldown 5000 c"
    by (simp add: busy_window_def ALERT_COOLDOWN_def)
  show ?thesis
    using C3_shared_cooldown
            [where m = "low_battery_state [] [] 0" and ?t1.0 = 5000 and ?t2.0 = 6000
               and lvl = ALERT_LEVEL_CRITICAL and msg = "''Low battery: 8%''" and calls = "[]"
               and s = on_state32 and ?lvl32.0 = WARNING]
          C3_shared_cooldown
            [where m = after_first and ?t1.0 = 5000 and ?t2.0 = 6000
               and lvl = ALERT_LEVEL_WARNING and msg = "''Low SpO2: 93%''" and calls = busy_window
               and s = on_state32 and ?lvl32.0 = WARNING]
          C3_shared_cooldown
            [where m = after_first and ?t1.0 = 25000 and ?t2.0 = 26000
               and lvl = ALERT_LEVEL_WARNING and msg = "''Low SpO2: 93%''" and calls = "[]"
               and s = on_state32 and ?lvl32.0 = WARNING]
          w
    by (simp add: f ALERT_COOLDOWN_def)
qed

subsection \<open>Runs of the program and the purge\<close>




























end
